theory Spec2Isabelle
  imports Main "HOL-Library.AList" "HOL-Library.Log_Nat"
begin

section \<open>Bio.Align.tabular: tabular BLAST / FASTA alignment rows\<close>

text \<open>
  An embedding of \<^verbatim>\<open>Bio/Align/tabular.py\<close>: the two trace-back decoders
  \<^verbatim>\<open>parse_btop\<close> and \<^verbatim>\<open>parse_cigar\<close>, and the part of
  \<^verbatim>\<open>_read_next_alignment\<close> that assembles one data row (from the split of the
  line into columns down to the returned alignment).

  Conventions. A Python \<^verbatim>\<open>str\<close> is a \<open>string\<close> of code points below 256; among
  these the decimal digits of \<^verbatim>\<open>\d\<close> and of \<^verbatim>\<open>int\<close> are \<open>0\<close> to \<open>9\<close>. Python integers
  are \<open>int\<close>, and \<^verbatim>\<open>int\<close> has the default limit of 4300 digits on the strings it converts.
  The arrays of numpy are those of a 64-bit platform, where the default integer type is
  int64. A raised exception is the \<open>Inl\<close> of a sum, or the \<open>Raises\<close> of an outcome; an
  \<^verbatim>\<open>assert\<close> is executed (the interpreter runs without \<^verbatim>\<open>-O\<close>) and raises
  AssertionError when it fails. The classes \<^verbatim>\<open>Seq\<close>, \<^verbatim>\<open>SeqRecord\<close> and
  \<^verbatim>\<open>Alignment\<close> belong to other modules: their constructors are parameters.
\<close>

subsection \<open>Exceptions and the parser state\<close>

datatype error =
    ValueError
  | AssertionError
  | TypeError
  | UnboundLocalError
  | OverflowError
  | KeyError
  | UnknownProgram string
  | UnexpectedField string

text \<open>\<^verbatim>\<open>class State(enum.Enum)\<close>\<close>

datatype State = MATCH | QUERY_GAP | TARGET_GAP | NONE

text \<open>The two Python lists \<^verbatim>\<open>target_coordinates\<close> and \<^verbatim>\<open>query_coordinates\<close>.\<close>

type_synonym coordinates = "int list \<times> int list"

subsection \<open>Characters and \<^verbatim>\<open>int(str)\<close>\<close>

definition is_digit :: "char \<Rightarrow> bool" where
  "is_digit c \<longleftrightarrow> c \<in> set ''0123456789''"

definition digit_val :: "char \<Rightarrow> int" where
  "digit_val c = int (of_char c) - 48"

text \<open>
  The characters \<^verbatim>\<open>int\<close> strips from both ends of its argument: the six ASCII white
  space characters, and the two white space characters between 128 and 255 (next line
  and no-break space), which \<^verbatim>\<open>int\<close> turns into spaces before it parses.
\<close>

definition is_space :: "char \<Rightarrow> bool" where
  "is_space c \<longleftrightarrow>
     (let n = (of_char c :: nat) in (9 \<le> n \<and> n \<le> 13) \<or> n = 32 \<or> n = 133 \<or> n = 160)"

definition strip :: "string \<Rightarrow> string" where
  "strip s = rev (dropWhile is_space (rev (dropWhile is_space s)))"

text \<open>
  The digits of a base-10 literal after its first digit: further digits, with single
  underscores allowed between two digits.
\<close>

fun digits_acc :: "int \<Rightarrow> string \<Rightarrow> int option" where
  "digits_acc n [] = Some n"
| "digits_acc n [c] = (if is_digit c then Some (10 * n + digit_val c) else None)"
| "digits_acc n (c # d # cs) =
     (if is_digit c then digits_acc (10 * n + digit_val c) (d # cs)
      else if c = CHR ''_'' \<and> is_digit d then digits_acc (10 * n + digit_val d) cs
      else None)"

text \<open>The default of \<^verbatim>\<open>sys.get_int_max_str_digits()\<close>: a literal with more digits
  (underscores are not counted) is refused.\<close>

definition int_max_str_digits :: nat where
  "int_max_str_digits = 4300"

definition py_digits :: "string \<Rightarrow> int option" where
  "py_digits s = (case s of [] \<Rightarrow> None
     | c # cs \<Rightarrow>
         if is_digit c \<and> length (filter is_digit s) \<le> int_max_str_digits
         then digits_acc (digit_val c) cs else None)"

text \<open>\<^verbatim>\<open>int(s)\<close> for a string \<open>s\<close>: \<open>None\<close> stands for the ValueError.\<close>

definition py_int :: "string \<Rightarrow> int option" where
  "py_int s = (case strip s of [] \<Rightarrow> None
     | c # cs \<Rightarrow>
         if c = CHR ''-'' then map_option uminus (py_digits cs)
         else if c = CHR ''+'' then py_digits cs
         else py_digits (c # cs))"

subsection \<open>Tokenizers\<close>

text \<open>\<^verbatim>\<open>re.findall("([A-Z-*]{2}|\\d+)", btop)\<close>: the character class holds the capital
  letters, the dash and the star. At each position the two-character alternative is tried
  first, then the greedy digit run; a position where neither matches is skipped.\<close>

definition btop_letter :: "char \<Rightarrow> bool" where
  "btop_letter c \<longleftrightarrow> c \<in> set ''ABCDEFGHIJKLMNOPQRSTUVWXYZ-*''"

function (sequential) btop_tokens :: "string \<Rightarrow> string list" where
  "btop_tokens [] = []"
| "btop_tokens [c] = (if is_digit c then [[c]] else [])"
| "btop_tokens (c # d # cs) =
     (if btop_letter c \<and> btop_letter d then [c, d] # btop_tokens cs
      else if is_digit c then
        (c # takeWhile is_digit (d # cs)) # btop_tokens (dropWhile is_digit (d # cs))
      else btop_tokens (d # cs))"
  by pat_completeness auto
termination
  by (relation "measure length")
     (auto simp: less_Suc_eq_le intro: le_trans [OF length_dropWhile_le])

text \<open>\<^verbatim>\<open>re.findall("(M|D|I|\\d+)", cigar)\<close>\<close>

definition cigar_letter :: "char \<Rightarrow> bool" where
  "cigar_letter c \<longleftrightarrow> c \<in> set ''MDI''"

function (sequential) cigar_tokens :: "string \<Rightarrow> string list" where
  "cigar_tokens [] = []"
| "cigar_tokens (c # cs) =
     (if cigar_letter c then [c] # cigar_tokens cs
      else if is_digit c then
        (c # takeWhile is_digit cs) # cigar_tokens (dropWhile is_digit cs)
      else cigar_tokens cs)"
  by pat_completeness auto
termination
  by (relation "measure length")
     (auto simp: less_Suc_eq_le intro: le_trans [OF length_dropWhile_le])

subsection \<open>The loop of \<^verbatim>\<open>parse_btop\<close>\<close>

definition startswith :: "string \<Rightarrow> string \<Rightarrow> bool" where
  "startswith s p \<longleftrightarrow> take (length p) s = p"

definition endswith :: "string \<Rightarrow> string \<Rightarrow> bool" where
  "endswith s p \<longleftrightarrow> length p \<le> length s \<and> drop (length s - length p) s = p"

text \<open>\<^verbatim>\<open>xs[-1] += n\<close> on a list that holds at least its initial 0.\<close>

definition bump_last :: "int \<Rightarrow> int list \<Rightarrow> int list" where
  "bump_last n xs = xs[length xs - 1 := last xs + n]"

text \<open>One pass of the body of \<^verbatim>\<open>for token in tokens\<close> (the source's \<^verbatim>\<open>length\<close> is \<open>len\<close>).\<close>

fun btop_step :: "int list \<times> int list \<times> State \<Rightarrow> string \<Rightarrow> int list \<times> int list \<times> State" where
  "btop_step (target_coordinates, query_coordinates, state) token =
     (if startswith token ''-'' then
        (if state \<noteq> QUERY_GAP
         then (bump_last 1 (target_coordinates @ [last target_coordinates]),
               query_coordinates @ [last query_coordinates], QUERY_GAP)
         else (bump_last 1 target_coordinates, query_coordinates, state))
      else if endswith token ''-'' then
        (if state \<noteq> TARGET_GAP
         then (target_coordinates @ [last target_coordinates],
               bump_last 1 (query_coordinates @ [last query_coordinates]), TARGET_GAP)
         else (target_coordinates, bump_last 1 query_coordinates, state))
      else
        (let len = (case py_int token of Some n \<Rightarrow> n | None \<Rightarrow> 1) in
         if state = MATCH
         then (bump_last len target_coordinates, bump_last len query_coordinates, state)
         else (target_coordinates @ [last target_coordinates + len],
               query_coordinates @ [last query_coordinates + len], MATCH)))"

text \<open>The two lists when the loop ends.\<close>

definition btop_coordinates :: "string \<Rightarrow> coordinates" where
  "btop_coordinates btop =
     (case foldl btop_step ([0], [0], NONE) (btop_tokens btop) of
        (target_coordinates, query_coordinates, state) \<Rightarrow>
          (target_coordinates, query_coordinates))"

subsection \<open>The loop of \<^verbatim>\<open>parse_cigar\<close>\<close>

text \<open>\<^verbatim>\<open>tokens[::2]\<close>; \<^verbatim>\<open>tokens[1::2]\<close> is the same slice of the tail.\<close>

fun every_other :: "'a list \<Rightarrow> 'a list" where
  "every_other [] = []"
| "every_other [x] = [x]"
| "every_other (x # y # xs) = x # every_other xs"

text \<open>\<^verbatim>\<open>zip(tokens[::2], tokens[1::2])\<close>\<close>

definition token_pairs :: "'a list \<Rightarrow> ('a \<times> 'a) list" where
  "token_pairs tokens = zip (every_other tokens) (every_other (tl tokens))"

definition cigar_pairs :: "string \<Rightarrow> (string \<times> string) list" where
  "cigar_pairs cigar = token_pairs (cigar_tokens cigar)"

text \<open>The loop state: the two lists and the two running coordinates.\<close>

type_synonym cigar_state = "int list \<times> int list \<times> int \<times> int"

fun cigar_step :: "cigar_state \<Rightarrow> string \<times> string \<Rightarrow> error + cigar_state" where
  "cigar_step (target_coordinates, query_coordinates, target_coordinate, query_coordinate)
       (length_token, operation) =
     (case py_int length_token of
        None \<Rightarrow> Inl ValueError
      | Some len \<Rightarrow>
          (let (target_coordinate, query_coordinate) =
             (if operation = ''M'' then (target_coordinate + len, query_coordinate + len)
              else if operation = ''I'' then (target_coordinate + len, query_coordinate)
              else if operation = ''D'' then (target_coordinate, query_coordinate + len)
              else (target_coordinate, query_coordinate))
           in Inr (target_coordinates @ [target_coordinate],
                   query_coordinates @ [query_coordinate],
                   target_coordinate, query_coordinate)))"

fun cigar_loop :: "cigar_state \<Rightarrow> (string \<times> string) list \<Rightarrow> error + cigar_state" where
  "cigar_loop s [] = Inr s"
| "cigar_loop s (p # ps) =
     (case cigar_step s p of Inl e \<Rightarrow> Inl e | Inr s' \<Rightarrow> cigar_loop s' ps)"

text \<open>The two lists when the loop ends, or the exception it raised.\<close>

definition cigar_coordinates :: "string \<Rightarrow> error + coordinates" where
  "cigar_coordinates cigar =
     (case cigar_loop ([0], [0], 0, 0) (cigar_pairs cigar) of
        Inl e \<Rightarrow> Inl e
      | Inr (target_coordinates, query_coordinates, target_coordinate, query_coordinate) \<Rightarrow>
          Inr (target_coordinates, query_coordinates))"

subsection \<open>\<^verbatim>\<open>numpy.array\<close> of the two lists\<close>

text \<open>
  \<^verbatim>\<open>numpy.array([target_coordinates, query_coordinates])\<close> chooses the type of the
  array from its values: int64 when every value fits in 64 signed bits; uint64 when
  every value needs the 64th bit; float64 when values of both kinds occur, and then each
  value is stored as the nearest double (ties to even); Python objects when some value
  fits in neither. Row 0 of the array is the target, row 1 the query.
\<close>

definition int64 :: "int \<Rightarrow> bool" where
  "int64 x \<longleftrightarrow> - (2 ^ 63) \<le> x \<and> x < 2 ^ 63"

text \<open>Arithmetic on int64 values wraps around.\<close>

definition wrap64 :: "int \<Rightarrow> int" where
  "wrap64 x = (x + 2 ^ 63) mod 2 ^ 64 - 2 ^ 63"

text \<open>The multiple of \<open>2 ^ e\<close> nearest to \<open>n \<ge> 0\<close>, ties to the even multiple; and the
  double nearest to an integer, whose 53 significant bits leave \<open>bitlen n - 53\<close> bits
  out.\<close>

definition round_to :: "nat \<Rightarrow> int \<Rightarrow> int" where
  "round_to e n =
     (let m = 2 ^ e; q = n div m; r = n mod m
      in if 2 * r < m \<or> (2 * r = m \<and> even q) then q * m else (q + 1) * m)"

definition round_double :: "int \<Rightarrow> int" where
  "round_double n =
     (if n < 0 then - round_to (nat (bitlen (- n) - 53)) (- n)
      else round_to (nat (bitlen n - 53)) n)"

datatype ndarray =
    Int64 "int list" "int list"
  | UInt64 "int list" "int list"
  | Float64 "int list" "int list"
  | Object "int list" "int list"

definition numpy_array :: "coordinates \<Rightarrow> ndarray" where
  "numpy_array c =
     (let values = fst c @ snd c in
      if list_all int64 values then Int64 (fst c) (snd c)
      else if list_all (\<lambda>v. 2 ^ 63 \<le> v \<and> v < 2 ^ 64) values then UInt64 (fst c) (snd c)
      else if list_all (\<lambda>v. - (2 ^ 63) \<le> v \<and> v < 2 ^ 64) values
        then Float64 (map round_double (fst c)) (map round_double (snd c))
      else Object (fst c) (snd c))"

text \<open>The values an array holds, row by row (those of a float64 array are integers as
  well, since they come from integers).\<close>

fun rows :: "ndarray \<Rightarrow> coordinates" where
  "rows (Int64 t q) = (t, q)"
| "rows (UInt64 t q) = (t, q)"
| "rows (Float64 t q) = (t, q)"
| "rows (Object t q) = (t, q)"

subsection \<open>\<^verbatim>\<open>parse_btop\<close> and \<^verbatim>\<open>parse_cigar\<close>\<close>

definition parse_btop :: "string \<Rightarrow> ndarray" where
  "parse_btop btop = numpy_array (btop_coordinates btop)"

definition parse_cigar :: "string \<Rightarrow> error + ndarray" where
  "parse_cigar cigar =
     (case cigar_coordinates cigar of
        Inl e \<Rightarrow> Inl e
      | Inr c \<Rightarrow> Inr (numpy_array c))"

subsection \<open>The data of one row\<close>

text \<open>
  The values stored in the three annotation dictionaries. \<^verbatim>\<open>float\<close> is a parameter
  \<open>pyfloat\<close> of the model, into a type \<open>'f\<close> of floating-point values; \<open>None\<close> is its
  ValueError. A dictionary is an association list in insertion order, written by
  \<open>AList.update\<close>.
\<close>

datatype 'f pyval = PyStr string | PyInt int | PyFloat 'f | PyNone

type_synonym 'f pydict = "(string \<times> 'f pyval) list"

text \<open>What the row reads of \<^verbatim>\<open>self\<close>: the attributes set by the header, and
  \<^verbatim>\<open>self.metadata["Program"]\<close>.\<close>

record iterator =
  self_fields :: "string list"
  self_query_id :: "string option"
  self_query_description :: "string option"
  self_query_size :: "int option"
  metadata_Program :: string

text \<open>The local variables of \<^verbatim>\<open>_read_next_alignment\<close> that the loop over the fields
  assigns (\<^verbatim>\<open>btop\<close> and \<^verbatim>\<open>cigar\<close> are never assigned).\<close>

record 'f row =
  alignment_length :: "int option"
  identical :: "int option"
  score :: "int option"
  query_id :: "string option"
  target_id :: "string option"
  query_start :: "int option"
  query_end :: "int option"
  target_start :: "int option"
  target_end :: "int option"
  query_sequence :: "string option"
  target_sequence :: "string option"
  target_length :: "int option"
  coordinates :: "ndarray option"
  query_size :: "int option"
  annotations :: "'f pydict"
  query_annotations :: "'f pydict"
  target_annotations :: "'f pydict"

definition initial_row :: "iterator \<Rightarrow> 'f row" where
  "initial_row self =
     \<lparr>alignment_length = None, identical = None, score = None, query_id = None,
      target_id = None, query_start = None, query_end = None, target_start = None,
      target_end = None, query_sequence = None, target_sequence = None,
      target_length = None, coordinates = None, query_size = self_query_size self,
      annotations = [], query_annotations = [], target_annotations = []\<rparr>"

text \<open>
  \<^verbatim>\<open>Seq\<close>, \<^verbatim>\<open>SeqRecord\<close> and \<^verbatim>\<open>Alignment\<close> are classes of other modules of the
  package. The three constructors are parameters of the model: each returns the object it
  builds or the exception it raises. \<open>seq_args\<close> are the arguments of the three calls of
  \<^verbatim>\<open>Seq\<close>; a record is the object \<^verbatim>\<open>SeqRecord\<close> returned together with the two
  attributes assigned to it afterwards (an empty dictionary is not assigned); an alignment
  is the object \<^verbatim>\<open>Alignment\<close> returned, with its annotations and its score.
\<close>

datatype seq_args =
    Seq_undefined int  \<comment> \<open>\<^verbatim>\<open>Seq(None, length=n)\<close>\<close>
  | Seq_partial int string "int option"  \<comment> \<open>\<^verbatim>\<open>Seq({start: s}, length=n)\<close>\<close>
  | Seq_defined string  \<comment> \<open>\<^verbatim>\<open>Seq(s)\<close>\<close>

record ('q, 'f) seqrecord =
  rec_object :: 'q
  rec_description :: "string option"
  rec_annotations :: "'f pydict option"

record ('a, 'f) alignment =
  al_object :: 'a
  al_annotations :: "'f pydict"
  al_score :: "int option"

record ('s, 'q, 'a, 'f) biopython =
  Seq :: "seq_args \<Rightarrow> error + 's"
  SeqRecord :: "'s option \<Rightarrow> string option \<Rightarrow> error + 'q"
  Alignment :: "('q, 'f) seqrecord \<Rightarrow> ('q, 'f) seqrecord \<Rightarrow> ndarray option \<Rightarrow> error + 'a"

text \<open>
  What a row comes to: an exception, the alignment, or arithmetic of numpy that the model
  does not follow. The model follows the two in-place operations on the array when the
  array is int64 or float64 and the offset fits in 64 signed bits, and when the array
  holds Python objects. For an offset that does not fit, and for a uint64 array (which
  neither decoder returns, their first column being 0), what numpy does depends on its
  version: the outcome is \<open>Beyond_int64\<close>, and nothing is said of the row.
\<close>

datatype 'a outcome = Raises error | Returns 'a | Beyond_int64

subsection \<open>Dispatch of one field\<close>

definition with_int :: "string \<Rightarrow> (int \<Rightarrow> 'a) \<Rightarrow> error + 'a" where
  "with_int column k = (case py_int column of None \<Rightarrow> Inl ValueError | Some n \<Rightarrow> Inr (k n))"

definition with_float :: "(string \<Rightarrow> 'f option) \<Rightarrow> string \<Rightarrow> ('f \<Rightarrow> 'a) \<Rightarrow> error + 'a" where
  "with_float pyfloat column k =
     (case pyfloat column of None \<Rightarrow> Inl ValueError | Some x \<Rightarrow> Inr (k x))"

definition ann :: "string \<Rightarrow> 'f pyval \<Rightarrow> 'f row \<Rightarrow> 'f row" where
  "ann key v r = r\<lparr>annotations := AList.update key v (annotations r)\<rparr>"

definition query_ann :: "string \<Rightarrow> 'f pyval \<Rightarrow> 'f row \<Rightarrow> 'f row" where
  "query_ann key v r = r\<lparr>query_annotations := AList.update key v (query_annotations r)\<rparr>"

definition target_ann :: "string \<Rightarrow> 'f pyval \<Rightarrow> 'f row \<Rightarrow> 'f row" where
  "target_ann key v r = r\<lparr>target_annotations := AList.update key v (target_annotations r)\<rparr>"

text \<open>The body of \<^verbatim>\<open>for column, field in zip(columns, self._fields)\<close>, branch by branch.\<close>

definition dispatch_field ::
  "(string \<Rightarrow> 'f option) \<Rightarrow> iterator \<Rightarrow> 'f row \<Rightarrow> string \<times> string \<Rightarrow> error + 'f row" where
  "dispatch_field pyfloat self r cf =
     (case cf of (column, field) \<Rightarrow>
      if field = ''query id'' then
        (if self_query_id self \<noteq> None \<and> Some column \<noteq> self_query_id self
         then Inl AssertionError else Inr (r\<lparr>query_id := Some column\<rparr>))
      else if field = ''subject id'' then Inr (r\<lparr>target_id := Some column\<rparr>)
      else if field = ''% identity'' then with_float pyfloat column (\<lambda>x. ann field (PyFloat x) r)
      else if field = ''alignment length'' then
        with_int column (\<lambda>n. r\<lparr>alignment_length := Some n\<rparr>)
      else if field = ''mismatches'' then with_int column (\<lambda>n. ann field (PyInt n) r)
      else if field = ''gap opens'' then with_int column (\<lambda>n. ann field (PyInt n) r)
      else if field = ''q. start'' then with_int column (\<lambda>n. r\<lparr>query_start := Some (n - 1)\<rparr>)
      else if field = ''q. end'' then with_int column (\<lambda>n. r\<lparr>query_end := Some n\<rparr>)
      else if field = ''s. start'' then with_int column (\<lambda>n. r\<lparr>target_start := Some (n - 1)\<rparr>)
      else if field = ''s. end'' then with_int column (\<lambda>n. r\<lparr>target_end := Some n\<rparr>)
      else if field = ''evalue'' then with_float pyfloat column (\<lambda>x. ann ''evalue'' (PyFloat x) r)
      else if field = ''bit score'' then
        with_float pyfloat column (\<lambda>x. ann ''bit score'' (PyFloat x) r)
      else if field = ''BTOP'' then Inr (r\<lparr>coordinates := Some (parse_btop column)\<rparr>)
      else if field = ''aln_code'' then
        (case parse_cigar column of
           Inl e \<Rightarrow> Inl e
         | Inr c \<Rightarrow> Inr (r\<lparr>coordinates := Some c\<rparr>))
      else if field = ''query gi'' then Inr (query_ann ''gi'' (PyStr column) r)
      else if field = ''query acc.'' then Inr (query_ann ''acc.'' (PyStr column) r)
      else if field = ''query acc.ver'' then Inr (query_ann ''acc.ver'' (PyStr column) r)
      else if field = ''query length'' then
        (case query_size r of
           None \<Rightarrow> with_int column (\<lambda>n. r\<lparr>query_size := Some n\<rparr>)
         | Some known \<Rightarrow>
             (case py_int column of
                None \<Rightarrow> Inl ValueError
              | Some n \<Rightarrow> if known = n then Inr r else Inl AssertionError))
      else if field = ''subject ids'' then Inr (target_ann ''ids'' (PyStr column) r)
      else if field = ''subject gi'' then Inr (target_ann ''gi'' (PyStr column) r)
      else if field = ''subject gis'' then Inr (target_ann ''gis'' (PyStr column) r)
      else if field = ''subject acc.'' then Inr (target_ann ''acc.'' (PyStr column) r)
      else if field = ''subject accs.'' then Inr (target_ann ''accs.'' (PyStr column) r)
      else if field = ''subject tax ids'' then Inr (target_ann ''tax ids'' (PyStr column) r)
      else if field = ''subject sci names'' then Inr (target_ann ''sci names'' (PyStr column) r)
      else if field = ''subject com names'' then Inr (target_ann ''com names'' (PyStr column) r)
      else if field = ''subject blast names'' then
        Inr (target_ann ''blast names'' (PyStr column) r)
      else if field = ''subject super kingdoms'' then
        Inr (target_ann ''super kingdoms'' (PyStr column) r)
      else if field = ''subject title'' then Inr (target_ann ''title'' (PyStr column) r)
      else if field = ''subject titles'' then Inr (target_ann ''titles'' (PyStr column) r)
      else if field = ''subject strand'' then Inr (target_ann ''strand'' (PyStr column) r)
      else if field = ''% subject coverage'' then
        with_float pyfloat column (\<lambda>x. target_ann ''% coverage'' (PyFloat x) r)
      else if field = ''subject acc.ver'' then Inr (target_ann ''acc.ver'' (PyStr column) r)
      else if field = ''subject length'' then
        with_int column (\<lambda>n. r\<lparr>target_length := Some n\<rparr>)
      else if field = ''query seq'' then Inr (r\<lparr>query_sequence := Some column\<rparr>)
      else if field = ''subject seq'' then Inr (r\<lparr>target_sequence := Some column\<rparr>)
      else if field = ''score'' then with_int column (\<lambda>n. r\<lparr>score := Some n\<rparr>)
      else if field = ''identical'' then
        with_int column (\<lambda>n. ann field (PyInt n) (r\<lparr>identical := Some n\<rparr>))
      else if field = ''positives'' then with_int column (\<lambda>n. ann field (PyInt n) r)
      else if field = ''gaps'' then with_int column (\<lambda>n. ann field (PyInt n) r)
      else if field = ''% positives'' then with_float pyfloat column (\<lambda>x. ann field (PyFloat x) r)
      else if field = ''% hsp coverage'' then
        with_float pyfloat column (\<lambda>x. ann field (PyFloat x) r)
      else if field = ''query/sbjct frames'' then Inr (ann field (PyStr column) r)
      else if field = ''query frame'' then Inr (query_ann ''frame'' (PyStr column) r)
      else if field = ''sbjct frame'' then Inr (target_ann ''frame'' (PyStr column) r)
      else Inl (UnexpectedField field))"

fun dispatch ::
  "(string \<Rightarrow> 'f option) \<Rightarrow> iterator \<Rightarrow> 'f row \<Rightarrow> (string \<times> string) list \<Rightarrow> error + 'f row" where
  "dispatch pyfloat self r [] = Inr r"
| "dispatch pyfloat self r (cf # cfs) =
     (case dispatch_field pyfloat self r cf of
        Inl e \<Rightarrow> Inl e
      | Inr r' \<Rightarrow> dispatch pyfloat self r' cfs)"

subsection \<open>From the dispatched fields to the alignment\<close>

text \<open>\<^verbatim>\<open>line.split("\t")\<close>\<close>

fun split_on :: "char \<Rightarrow> string \<Rightarrow> string list" where
  "split_on sep [] = [[]]"
| "split_on sep (c # cs) =
     (if c = sep then [] # split_on sep cs
      else (case split_on sep cs of x # xs \<Rightarrow> (c # x) # xs | [] \<Rightarrow> [[c]]))"

text \<open>\<^verbatim>\<open>s.replace("-", "")\<close>\<close>

definition remove_dashes :: "string \<Rightarrow> string" where
  "remove_dashes s = filter (\<lambda>c. c \<noteq> CHR ''-'') s"

definition opt_int :: "int option \<Rightarrow> 'f pyval" where
  "opt_int v = (case v of None \<Rightarrow> PyNone | Some n \<Rightarrow> PyInt n)"

text \<open>
  The branch \<^verbatim>\<open>else\<close> of \<^verbatim>\<open>if coordinates is None\<close>. The comparison
  \<^verbatim>\<open>query_start < query_end\<close> raises TypeError when one of the two is None. Then
  \<^verbatim>\<open>coordinates[1, :] += query_start\<close>, or
  \<^verbatim>\<open>coordinates[1, :] = query_start - coordinates[1, :] + 1\<close>, in the arithmetic of the
  array: int64 operations wrap around; float64 operations take the offset as a double
  and round each result to the nearest double; on Python objects the operations are
  those of Python integers.
\<close>

definition rebase_query :: "int option \<Rightarrow> int option \<Rightarrow> ndarray \<Rightarrow> ndarray outcome" where
  "rebase_query q_start q_end c =
     (case (q_start, q_end) of
        (Some qs, Some qe) \<Rightarrow>
          (case c of
             Int64 t q \<Rightarrow>
               if int64 qs then
                 (if qs < qe then Returns (Int64 t (map (\<lambda>v. wrap64 (v + qs)) q))
                  else Returns (Int64 t (map (\<lambda>v. wrap64 (wrap64 (qs - v) + 1)) q)))
               else Beyond_int64
           | UInt64 t q \<Rightarrow> Beyond_int64
           | Float64 t q \<Rightarrow>
               if int64 qs then
                 (if qs < qe
                  then Returns (Float64 t (map (\<lambda>v. round_double (v + round_double qs)) q))
                  else Returns (Float64 t
                         (map (\<lambda>v. round_double (round_double (round_double qs - v) + 1)) q)))
               else Beyond_int64
           | Object t q \<Rightarrow>
               if qs < qe then Returns (Object t (map (\<lambda>v. v + qs) q))
               else Returns (Object t (map (\<lambda>v. qs - v + 1) q)))
      | _ \<Rightarrow> Raises TypeError)"

text \<open>\<^verbatim>\<open>coordinates[0, :] += target_start\<close>: adding None raises TypeError.\<close>

definition rebase_target :: "int option \<Rightarrow> ndarray \<Rightarrow> ndarray outcome" where
  "rebase_target t_start c =
     (case t_start of
        None \<Rightarrow> Raises TypeError
      | Some ts \<Rightarrow>
          (case c of
             Int64 t q \<Rightarrow>
               if int64 ts then Returns (Int64 (map (\<lambda>v. wrap64 (v + ts)) t) q)
               else Beyond_int64
           | UInt64 t q \<Rightarrow> Beyond_int64
           | Float64 t q \<Rightarrow>
               if int64 ts
               then Returns (Float64 (map (\<lambda>v. round_double (v + round_double ts)) t) q)
               else Beyond_int64
           | Object t q \<Rightarrow> Returns (Object (map (\<lambda>v. v + ts) t) q)))"

text \<open>The statement \<^verbatim>\<open>if coordinates is None: ... else: ...\<close> after the loop.\<close>

definition resolve_coordinates :: "'f row \<Rightarrow> 'f row outcome" where
  "resolve_coordinates r =
     (case coordinates r of
        None \<Rightarrow>
          (let r1 = (case alignment_length r of
                       None \<Rightarrow> r | Some n \<Rightarrow> ann ''alignment length'' (PyInt n) r);
               r2 = (case query_start r1 of
                       None \<Rightarrow> r1 | Some n \<Rightarrow> query_ann ''start'' (PyInt n) r1);
               r3 = (case query_end r2 of
                       None \<Rightarrow> r2 | Some n \<Rightarrow> query_ann ''end'' (PyInt n) r2)
           in Returns r3)
      | Some c \<Rightarrow>
          (case rebase_query (query_start r) (query_end r) c of
             Raises e \<Rightarrow> Raises e
           | Beyond_int64 \<Rightarrow> Beyond_int64
           | Returns c' \<Rightarrow> Returns (r\<lparr>coordinates := Some c'\<rparr>)))"

text \<open>
  The call of \<^verbatim>\<open>Seq\<close> (none when the sequence is None), the call of \<^verbatim>\<open>SeqRecord\<close>,
  and the two assignments to the record.
\<close>

definition build_record ::
  "('s, 'q, 'a, 'f) biopython \<Rightarrow> seq_args option \<Rightarrow> string option \<Rightarrow> string option \<Rightarrow>
   'f pydict \<Rightarrow> error + ('q, 'f) seqrecord" where
  "build_record bio args ident description annots =
     (case (case args of None \<Rightarrow> Inr None | Some a \<Rightarrow> map_sum id Some (Seq bio a)) of
        Inl e \<Rightarrow> Inl e
      | Inr sequence \<Rightarrow>
          (case SeqRecord bio sequence ident of
             Inl e \<Rightarrow> Inl e
           | Inr object \<Rightarrow>
               Inr \<lparr>rec_object = object, rec_description = description,
                    rec_annotations = (if annots = [] then None else Some annots)\<rparr>))"

text \<open>
  The query: the arguments of its \<^verbatim>\<open>Seq\<close> by program, with the annotations as they
  are then (\<open>ungapped\<close> is the source's \<^verbatim>\<open>query_sequence\<close> after the replace).
\<close>

definition query_args :: "iterator \<Rightarrow> 'f row \<Rightarrow> error + seq_args option \<times> 'f pydict" where
  "query_args self r =
     (case query_sequence r of
        None \<Rightarrow>
          Inr (case query_size r of None \<Rightarrow> None | Some n \<Rightarrow> Some (Seq_undefined n),
               query_annotations r)
      | Some s \<Rightarrow>
          (let program = metadata_Program self; ungapped = remove_dashes s in
           if program = ''TBLASTN'' then
             (case (query_end r, query_start r) of
                (Some qe, Some qs) \<Rightarrow>
                  if int (length ungapped) = qe - qs
                  then Inr (Some (Seq_partial qs ungapped (query_size r)),
                            query_annotations r)
                  else Inl AssertionError
              | _ \<Rightarrow> Inl TypeError)
           else if program = ''TBLASTX'' then
             Inr (Some (Seq_defined ungapped),
                  AList.update ''end'' (opt_int (query_end r))
                    (AList.update ''start'' (opt_int (query_start r)) (query_annotations r)))
           else Inl (UnknownProgram program)))"

definition query_record ::
  "('s, 'q, 'a, 'f) biopython \<Rightarrow> iterator \<Rightarrow> 'f row \<Rightarrow> error + ('q, 'f) seqrecord" where
  "query_record bio self r =
     (case query_args self r of
        Inl e \<Rightarrow> Inl e
      | Inr (args, annots) \<Rightarrow>
          build_record bio args (query_id r) (self_query_description self) annots)"

text \<open>
  The target of a program other than TBLASTN and TBLASTX: the arguments of its
  \<^verbatim>\<open>Seq\<close>. When the sequence is given and an offset is missing, \<^verbatim>\<open>target_seq\<close> is
  not bound, and its use raises.
\<close>

definition target_args :: "'f row \<Rightarrow> error + seq_args option" where
  "target_args r =
     (case target_sequence r of
        None \<Rightarrow> Inr (case target_end r of None \<Rightarrow> None | Some te \<Rightarrow> Some (Seq_undefined te))
      | Some s \<Rightarrow>
          (let ungapped = remove_dashes s in
           case (target_start r, target_end r) of
             (Some ts, Some te) \<Rightarrow>
               if int (length ungapped) = te - ts
               then Inr (Some (Seq_partial ts ungapped (Some te)))
               else Inl AssertionError
           | _ \<Rightarrow> Inl UnboundLocalError))"

text \<open>The target, and the coordinates as they are handed to \<^verbatim>\<open>Alignment\<close>.\<close>

definition target_record ::
  "('s, 'q, 'a, 'f) biopython \<Rightarrow> iterator \<Rightarrow> 'f row \<Rightarrow>
   (('q, 'f) seqrecord \<times> ndarray option) outcome" where
  "target_record bio self r =
     (if metadata_Program self = ''TBLASTN'' \<or> metadata_Program self = ''TBLASTX'' then
        (case build_record bio
                (case target_sequence r of
                   None \<Rightarrow> None | Some s \<Rightarrow> Some (Seq_defined (remove_dashes s)))
                (target_id r) None
                (AList.update ''length'' (opt_int (target_length r))
                  (AList.update ''end'' (opt_int (target_end r))
                    (AList.update ''start'' (opt_int (target_start r))
                      (target_annotations r)))) of
           Inl e \<Rightarrow> Raises e
         | Inr target \<Rightarrow> Returns (target, coordinates r))
      else
        (case (case coordinates r of
                 None \<Rightarrow> Returns None
               | Some c \<Rightarrow>
                   (case rebase_target (target_start r) c of
                      Raises e \<Rightarrow> Raises e
                    | Beyond_int64 \<Rightarrow> Beyond_int64
                    | Returns c' \<Rightarrow> Returns (Some c'))) of
           Raises e \<Rightarrow> Raises e
         | Beyond_int64 \<Rightarrow> Beyond_int64
         | Returns coords \<Rightarrow>
             (case target_args r of
                Inl e \<Rightarrow> Raises e
              | Inr args \<Rightarrow>
                  (case build_record bio args (target_id r) None (target_annotations r) of
                     Inl e \<Rightarrow> Raises e
                   | Inr target \<Rightarrow> Returns (target, coords)))))"

text \<open>
  The part of the function between the loop over the fields and the call of
  \<^verbatim>\<open>Alignment\<close>: the local variables after the statement on the coordinates, and the
  arguments of the call, \<^verbatim>\<open>records = [target, query]\<close> and \<^verbatim>\<open>coordinates\<close>.
\<close>

definition records_coordinates ::
  "('s, 'q, 'a, 'f) biopython \<Rightarrow> iterator \<Rightarrow> 'f row \<Rightarrow>
   ('f row \<times> ('q, 'f) seqrecord \<times> ('q, 'f) seqrecord \<times> ndarray option) outcome" where
  "records_coordinates bio self r =
     (case resolve_coordinates r of
        Raises e \<Rightarrow> Raises e
      | Beyond_int64 \<Rightarrow> Beyond_int64
      | Returns r1 \<Rightarrow>
          (case query_record bio self r1 of
             Inl e \<Rightarrow> Raises e
           | Inr query \<Rightarrow>
               (case target_record bio self r1 of
                  Raises e \<Rightarrow> Raises e
                | Beyond_int64 \<Rightarrow> Beyond_int64
                | Returns (target, coords) \<Rightarrow> Returns (r1, target, query, coords))))"

text \<open>The call of \<^verbatim>\<open>Alignment\<close>, and the two assignments to the alignment.\<close>

definition assemble ::
  "('s, 'q, 'a, 'f) biopython \<Rightarrow> iterator \<Rightarrow> 'f row \<Rightarrow> ('a, 'f) alignment outcome" where
  "assemble bio self r =
     (case records_coordinates bio self r of
        Raises e \<Rightarrow> Raises e
      | Beyond_int64 \<Rightarrow> Beyond_int64
      | Returns (r1, target, query, coords) \<Rightarrow>
          (case Alignment bio target query coords of
             Inl e \<Rightarrow> Raises e
           | Inr object \<Rightarrow>
               Returns \<lparr>al_object = object, al_annotations = annotations r1,
                        al_score = score r1\<rparr>))"

text \<open>
  \<^verbatim>\<open>_read_next_alignment\<close> from \<^verbatim>\<open>columns = line.split("\t")\<close> on: \<open>line\<close> is the
  data line the loop over the stream stopped at, already stripped on the right.
\<close>

definition read_next_alignment ::
  "(string \<Rightarrow> 'f option) \<Rightarrow> ('s, 'q, 'a, 'f) biopython \<Rightarrow> iterator \<Rightarrow> string \<Rightarrow>
   ('a, 'f) alignment outcome" where
  "read_next_alignment pyfloat bio self line =
     (let columns = split_on (CHR 0x09) line in
      if length columns \<noteq> length (self_fields self) then Raises AssertionError
      else (case dispatch pyfloat self (initial_row self) (zip columns (self_fields self)) of
              Inl e \<Rightarrow> Raises e
            | Inr r \<Rightarrow> assemble bio self r))"

section \<open>Notions used in the statements\<close>

text \<open>The value of a run of decimal digits, and the runs themselves.\<close>

definition dec_value :: "string \<Rightarrow> int" where
  "dec_value ds = foldl (\<lambda>n c. 10 * n + digit_val c) 0 ds"

definition all_digits :: "string \<Rightarrow> bool" where
  "all_digits ds \<longleftrightarrow> ds \<noteq> [] \<and> list_all is_digit ds"

text \<open>The runs that \<^verbatim>\<open>int\<close> converts: those within its limit of digits.\<close>

definition is_length :: "string \<Rightarrow> bool" where
  "is_length ds \<longleftrightarrow> all_digits ds \<and> length ds \<le> int_max_str_digits"

text \<open>The two shapes of a token of the BTOP tokenizer.\<close>

definition btop_token :: "string \<Rightarrow> bool" where
  "btop_token t \<longleftrightarrow> all_digits t \<or> (length t = 2 \<and> list_all btop_letter t)"

text \<open>The branch of the loop of \<^verbatim>\<open>parse_btop\<close> a token takes, named by the state the
  branch leaves.\<close>

definition token_kind :: "string \<Rightarrow> State" where
  "token_kind token =
     (if startswith token ''-'' then QUERY_GAP
      else if endswith token ''-'' then TARGET_GAP else MATCH)"

text \<open>A coordinate matrix that starts at the origin and never decreases along a row.\<close>

definition origin_monotone :: "coordinates \<Rightarrow> bool" where
  "origin_monotone c \<longleftrightarrow>
     fst c \<noteq> [] \<and> length (fst c) = length (snd c) \<and> hd (fst c) = 0 \<and> hd (snd c) = 0 \<and>
     sorted (fst c) \<and> sorted (snd c)"

text \<open>The invariant of the loop of \<^verbatim>\<open>parse_btop\<close>: once a token has been read
  (the state is no longer NONE) the origin column is not the last one.\<close>

definition btop_inv :: "int list \<times> int list \<times> State \<Rightarrow> bool" where
  "btop_inv s = (case s of (t, q, st) \<Rightarrow>
     origin_monotone (t, q) \<and> (st = NONE \<or> 2 \<le> length t))"

text \<open>The tokens of the CIGAR tokenizer; what a pair of tokens adds to each running
  coordinate; the running sums the loop appends.\<close>

definition cigar_token :: "string \<Rightarrow> bool" where
  "cigar_token t \<longleftrightarrow> all_digits t \<or> t \<in> {''M'', ''D'', ''I''}"

definition length_of :: "string \<Rightarrow> int" where
  "length_of token = (case py_int token of Some n \<Rightarrow> n | None \<Rightarrow> 0)"

definition target_advance :: "string \<times> string \<Rightarrow> int" where
  "target_advance p = (if snd p = ''M'' \<or> snd p = ''I'' then length_of (fst p) else 0)"

definition query_advance :: "string \<times> string \<Rightarrow> int" where
  "query_advance p = (if snd p = ''M'' \<or> snd p = ''D'' then length_of (fst p) else 0)"

fun running_sums :: "int \<Rightarrow> int list \<Rightarrow> int list" where
  "running_sums c [] = []"
| "running_sums c (a # as) = (c + a) # running_sums (c + a) as"

text \<open>
  The CIGAR grammar: a string of the grammar is the concatenation of pairs of a decimal
  length and an operation letter. \<open>sum_lengths ops\<close> adds the lengths of the pairs whose
  operation is one of \<open>ops\<close>.
\<close>

definition cigar_grammar :: "(string \<times> char) list \<Rightarrow> bool" where
  "cigar_grammar gp \<longleftrightarrow> list_all (\<lambda>p. all_digits (fst p) \<and> cigar_letter (snd p)) gp"

definition cigar_string :: "(string \<times> char) list \<Rightarrow> string" where
  "cigar_string gp = concat (map (\<lambda>p. fst p @ [snd p]) gp)"

definition sum_lengths :: "string \<Rightarrow> (string \<times> char) list \<Rightarrow> int" where
  "sum_lengths ops gp =
     sum_list (map (\<lambda>p. if snd p \<in> set ops then dec_value (fst p) else 0) gp)"


text \<open>
  The rows of the statements: a line is its column values joined by tabs; \<open>dispatched\<close>
  says that the line has as many columns as there are fields and that the loop over the
  fields ended without raising, leaving the local variables \<open>r\<close>; \<open>offsets_fit\<close> says
  that the row is one whose arithmetic the model follows: it has no array, or an array
  of Python objects, or an int64 or float64 array and start offsets that fit in 64
  signed bits; \<open>rebased_query\<close> is the query row of an int64 array after the statement
  on the coordinates.
\<close>

fun tab_separated :: "string list \<Rightarrow> string" where
  "tab_separated [] = []"
| "tab_separated [x] = x"
| "tab_separated (x # y # r) = x @ CHR 0x09 # tab_separated (y # r)"

definition dispatched :: "(string \<Rightarrow> 'f option) \<Rightarrow> iterator \<Rightarrow> string \<Rightarrow> 'f row \<Rightarrow> bool" where
  "dispatched pyfloat self line r \<longleftrightarrow>
     length (split_on (CHR 0x09) line) = length (self_fields self) \<and>
     dispatch pyfloat self (initial_row self) (zip (split_on (CHR 0x09) line) (self_fields self))
       = Inr r"

definition fits_int64 :: "int option \<Rightarrow> bool" where
  "fits_int64 v = (case v of None \<Rightarrow> True | Some n \<Rightarrow> int64 n)"

definition offsets_fit :: "'f row \<Rightarrow> bool" where
  "offsets_fit r \<longleftrightarrow>
     (case coordinates r of
        None \<Rightarrow> True
      | Some c \<Rightarrow>
          (case c of
             Object t q \<Rightarrow> True
           | UInt64 t q \<Rightarrow> False
           | _ \<Rightarrow> fits_int64 (query_start r) \<and> fits_int64 (target_start r)))"

definition rebased_query :: "int \<Rightarrow> int \<Rightarrow> int list \<Rightarrow> int list" where
  "rebased_query qs qe q =
     (if qs < qe then map (\<lambda>v. wrap64 (v + qs)) q
      else map (\<lambda>v. wrap64 (wrap64 (qs - v) + 1)) q)"

text \<open>
  The examples need an instance of the three constructors. In this one a sequence is the
  arguments it was built from, a record is its sequence and its identifier, and an
  alignment is its two records and its coordinates. The instance raises on the arguments
  that the classes of the package refuse: \<^verbatim>\<open>Seq\<close> on a negative length, on a dictionary
  with the length None, on a dictionary whose data start before 0 or end after the
  length, and on a character that is not ASCII; \<^verbatim>\<open>SeqRecord\<close> on a sequence whose
  length is not a machine index; \<^verbatim>\<open>Alignment\<close>, when the coordinates are None, on two
  sequences of different lengths (when both lengths are known and equal, the
  coordinates are the two rows from 0 to that length). The theorems are stated for every
  instance, and use this one at rows on which it raises nothing.
\<close>

definition ascii :: "string \<Rightarrow> bool" where
  "ascii s \<longleftrightarrow> list_all (\<lambda>c. (of_char c :: nat) < 128) s"

definition seq_length :: "seq_args \<Rightarrow> int" where
  "seq_length a =
     (case a of
        Seq_undefined n \<Rightarrow> n
      | Seq_partial start s len \<Rightarrow> (case len of None \<Rightarrow> 0 | Some n \<Rightarrow> n)
      | Seq_defined s \<Rightarrow> int (length s))"

definition example_Seq :: "seq_args \<Rightarrow> error + seq_args" where
  "example_Seq a =
     (case a of
        Seq_undefined n \<Rightarrow> if n < 0 then Inl ValueError else Inr a
      | Seq_partial start s len \<Rightarrow>
          (case len of
             None \<Rightarrow> Inl ValueError
           | Some n \<Rightarrow>
               if n = 0 then Inr a
               else if n < 0 \<or> \<not> ascii s \<or> start < - 1 then Inl ValueError
               else if start = - 1 then Inl KeyError
               else if n < start + int (length s) then Inl ValueError
               else Inr a)
      | Seq_defined s \<Rightarrow> if ascii s then Inr a else Inl ValueError)"

type_synonym example_record = "seq_args option \<times> string option"

definition example_SeqRecord ::
  "seq_args option \<Rightarrow> string option \<Rightarrow> error + example_record" where
  "example_SeqRecord sequence ident =
     (case sequence of
        None \<Rightarrow> Inr (None, ident)
      | Some a \<Rightarrow> if seq_length a < 2 ^ 63 then Inr (sequence, ident) else Inl OverflowError)"

type_synonym example_alignment =
  "(example_record, unit) seqrecord \<times> (example_record, unit) seqrecord \<times> ndarray option"

definition example_Alignment ::
  "(example_record, unit) seqrecord \<Rightarrow> (example_record, unit) seqrecord \<Rightarrow>
   ndarray option \<Rightarrow> error + example_alignment" where
  "example_Alignment target query coords =
     (case coords of
        Some c \<Rightarrow> Inr (target, query, coords)
      | None \<Rightarrow>
          (case (fst (rec_object target), fst (rec_object query)) of
             (Some a, Some b) \<Rightarrow>
               if seq_length a = seq_length b
               then Inr (target, query,
                         Some (numpy_array ([0, seq_length a], [0, seq_length a])))
               else Inl ValueError
           | _ \<Rightarrow> Inr (target, query, None)))"

definition example_biopython ::
  "(seq_args, example_record, example_alignment, unit) biopython" where
  "example_biopython =
     \<lparr>Seq = example_Seq, SeqRecord = example_SeqRecord, Alignment = example_Alignment\<rparr>"

text \<open>\<open>no_float\<close> is a \<^verbatim>\<open>float\<close> that is never called in the examples.\<close>

definition no_float :: "string \<Rightarrow> unit option" where
  "no_float s = None"

text \<open>The headers and the lines of the examples. A header of FASTA gives the size of the
  query; one of TBLASTN or TBLASTX does not, and the row may give it in the field
  \<open>query length\<close>.\<close>

definition fasta_iterator :: iterator where
  "fasta_iterator =
     \<lparr>self_fields = [''query id'', ''subject id'', ''q. start'', ''q. end'', ''s. start'',
                      ''s. end'', ''aln_code''],
      self_query_id = Some ''q1'', self_query_description = None,
      self_query_size = Some 100, metadata_Program = ''FASTA''\<rparr>"

definition fasta_line :: string where
  "fasta_line = tab_separated [''q1'', ''t1'', ''3'', ''6'', ''11'', ''14'', ''4M'']"

definition fasta_reverse_line :: string where
  "fasta_reverse_line = tab_separated [''q1'', ''t1'', ''6'', ''3'', ''11'', ''14'', ''4M'']"

definition fasta_long_line :: string where
  "fasta_long_line =
     tab_separated [''q1'', ''t1'', ''3'', ''6'', ''11'', ''14'', ''9223372036854775807M'']"

definition fasta_seq_iterator :: iterator where
  "fasta_seq_iterator =
     \<lparr>self_fields = [''query id'', ''subject id'', ''s. start'', ''s. end'', ''subject seq''],
      self_query_id = Some ''q1'', self_query_description = None,
      self_query_size = Some 100, metadata_Program = ''FASTA''\<rparr>"

definition fasta_seq_line :: string where
  "fasta_seq_line = tab_separated [''q1'', ''t1'', ''11'', ''14'', ''AC-G'']"

definition tblastx_iterator :: iterator where
  "tblastx_iterator =
     \<lparr>self_fields = [''query id'', ''subject id'', ''q. start'', ''q. end'', ''query seq'',
                      ''subject seq'', ''query length'', ''BTOP''],
      self_query_id = Some ''q1'', self_query_description = None,
      self_query_size = None, metadata_Program = ''TBLASTX''\<rparr>"

definition tblastn_iterator :: iterator where
  "tblastn_iterator = tblastx_iterator\<lparr>metadata_Program := ''TBLASTN''\<rparr>"


definition tblast_short_line :: string where
  "tblast_short_line =
     tab_separated [''q1'', ''t1'', ''11'', ''14'', ''AC-G'', ''AC'', ''50'', ''3'']"
section \<open>Properties of \<^verbatim>\<open>int\<close> and of the tokenizers\<close>

lemma digit_not_space: "is_digit c \<Longrightarrow> \<not> is_space c"
  by (auto simp: is_digit_def is_space_def)

lemma digit_val_nonneg: "is_digit c \<Longrightarrow> 0 \<le> digit_val c"
  by (auto simp: is_digit_def digit_val_def)

lemma digits_acc_run:
  "list_all is_digit cs \<Longrightarrow> digits_acc n cs = Some (foldl (\<lambda>n c. 10 * n + digit_val c) n cs)"
  by (induction n cs rule: digits_acc.induct) auto

lemma foldl_digits_nonneg:
  "list_all is_digit cs \<Longrightarrow> 0 \<le> n \<Longrightarrow> 0 \<le> foldl (\<lambda>n c. 10 * n + digit_val c) n cs"
  by (induction cs arbitrary: n) (auto simp: digit_val_nonneg)

lemma dec_value_nonneg: "list_all is_digit ds \<Longrightarrow> 0 \<le> dec_value ds"
  by (simp add: dec_value_def foldl_digits_nonneg)

lemma strip_digits: "all_digits ds \<Longrightarrow> strip ds = ds"
proof -
  assume a: "all_digits ds"
  then obtain c cs where ds: "ds = c # cs" by (cases ds) (auto simp: all_digits_def)
  have 1: "dropWhile is_space ds = ds" using a ds by (simp add: all_digits_def digit_not_space)
  have "rev ds \<noteq> []" "is_digit (hd (rev ds))"
    using a by (auto simp: all_digits_def hd_rev list_all_iff)
  then have 2: "dropWhile is_space (rev ds) = rev ds"
    by (cases "rev ds") (auto simp: digit_not_space)
  show ?thesis by (simp add: strip_def 1 2)
qed

lemma py_int_digits: "is_length ds \<Longrightarrow> py_int ds = Some (dec_value ds)"
proof -
  assume l: "is_length ds"
  then have a: "all_digits ds" by (simp add: is_length_def)
  then obtain c cs where ds: "ds = c # cs" by (cases ds) (auto simp: all_digits_def)
  have c: "is_digit c" "list_all is_digit cs" using a ds by (auto simp: all_digits_def)
  have f: "filter is_digit ds = ds" using a by (simp add: all_digits_def list_all_iff)
  have n: "length (filter is_digit (c # cs)) \<le> int_max_str_digits"
    using l unfolding f [unfolded ds] by (simp add: is_length_def ds)
  have "c \<noteq> CHR ''-''" "c \<noteq> CHR ''+''" using c by (auto simp: is_digit_def)
  then show ?thesis
    using c n by (simp add: py_int_def strip_digits [OF a, unfolded ds] py_digits_def ds
        digits_acc_run dec_value_def digit_val_def del: filter.simps)
qed

lemma py_int_long:
  assumes "all_digits ds" "int_max_str_digits < length ds"
  shows "py_int ds = None"
proof -
  from assms(1) obtain c cs where ds: "ds = c # cs" by (cases ds) (auto simp: all_digits_def)
  have c: "is_digit c" using assms(1) ds by (auto simp: all_digits_def)
  have f: "filter is_digit ds = ds" using assms(1) by (simp add: all_digits_def list_all_iff)
  have n: "\<not> length (filter is_digit (c # cs)) \<le> int_max_str_digits"
    using assms(2) unfolding f [unfolded ds] by (simp add: ds)
  have "c \<noteq> CHR ''-''" "c \<noteq> CHR ''+''" using c by (auto simp: is_digit_def)
  then show ?thesis
    using n by (simp add: py_int_def strip_digits [OF assms(1), unfolded ds] py_digits_def ds
        del: filter.simps)
qed

lemma py_int_run_nonneg: "all_digits ds \<Longrightarrow> py_int ds = Some n \<Longrightarrow> 0 \<le> n"
  using py_int_digits [of ds] py_int_long [of ds] dec_value_nonneg [of ds]
  by (cases "length ds \<le> int_max_str_digits") (auto simp: is_length_def all_digits_def)

lemma letter_plain:
  "btop_letter c \<Longrightarrow> \<not> is_space c \<and> c \<noteq> CHR ''+'' \<and> \<not> is_digit c"
  unfolding btop_letter_def is_space_def is_digit_def by auto

lemma btop_tokens_valid: "list_all btop_token (btop_tokens s)"
proof (induction s rule: btop_tokens.induct)
  case 1
  show ?case by simp
next
  case (2 c)
  show ?case by (simp add: btop_token_def all_digits_def)
next
  case (3 c d cs)
  have "list_all is_digit (takeWhile is_digit (d # cs))"
    unfolding list_all_iff by (metis set_takeWhileD)
  with 3 show ?case
    by (auto simp: btop_token_def all_digits_def)
qed

lemma bump_last_snoc: "bump_last n (ys @ [y]) = ys @ [y + n]"
  by (simp add: bump_last_def)

lemma btop_length_nonneg:
  assumes "btop_token t" "\<not> startswith t ''-''"
  shows "0 \<le> (case py_int t of Some n \<Rightarrow> n | None \<Rightarrow> 1)"
proof (cases "all_digits t")
  case True
  then show ?thesis
    using py_int_run_nonneg [of t] by (cases "py_int t") simp_all
next
  case False
  with assms obtain c d where t: "t = [c, d]" "btop_letter c" "btop_letter d"
    by (auto simp: btop_token_def length_Suc_conv numeral_2_eq_2)
  have "c \<noteq> CHR ''-''" using assms(2) t by (simp add: startswith_def)
  moreover have "\<not> is_space c" "\<not> is_space d" "c \<noteq> CHR ''+''" "\<not> is_digit c"
    using t letter_plain by blast+
  ultimately have "py_int t = None"
    by (simp add: py_int_def strip_def t py_digits_def)
  then show ?thesis by simp
qed

lemma sorted_bump: "xs \<noteq> [] \<Longrightarrow> sorted xs \<Longrightarrow> 0 \<le> n \<Longrightarrow> sorted (bump_last n xs)"
proof -
  assume a: "xs \<noteq> []" "sorted xs" "0 \<le> n"
  then obtain ys y where xs: "xs = ys @ [y]" by (metis rev_exhaust)
  show ?thesis using a by (auto simp: xs bump_last_snoc sorted_append)
qed

section \<open>The loop of \<^verbatim>\<open>parse_btop\<close>\<close>

lemma bump_last_snoc2: "bump_last n (ys @ [x, y]) = ys @ [x, y + n]"
  using bump_last_snoc [of n "ys @ [x]" y] by simp

lemma btop_step_snoc:
  "btop_step (ys @ [y], zs @ [z], st) tok =
     (if startswith tok ''-'' then
        (if st \<noteq> QUERY_GAP then (ys @ [y, y + 1], zs @ [z, z], QUERY_GAP)
         else (ys @ [y + 1], zs @ [z], st))
      else if endswith tok ''-'' then
        (if st \<noteq> TARGET_GAP then (ys @ [y, y], zs @ [z, z + 1], TARGET_GAP)
         else (ys @ [y], zs @ [z + 1], st))
      else
        (let len = (case py_int tok of Some n \<Rightarrow> n | None \<Rightarrow> 1) in
         if st = MATCH then (ys @ [y + len], zs @ [z + len], st)
         else (ys @ [y, y + len], zs @ [z, z + len], MATCH)))"
  by (simp add: bump_last_snoc bump_last_snoc2 Let_def)

lemma inv_snoc:
  "btop_inv (ys @ [y], zs @ [z], st) \<longleftrightarrow>
     length ys = length zs \<and> hd (ys @ [y]) = 0 \<and> hd (zs @ [z]) = 0 \<and>
     sorted (ys @ [y]) \<and> sorted (zs @ [z]) \<and> (st = NONE \<or> ys \<noteq> [])"
  by (cases ys) (auto simp: btop_inv_def origin_monotone_def)

lemma inv_push:
  assumes "btop_inv (ys @ [y], zs @ [z], st)" "0 \<le> a" "0 \<le> b"
  shows "btop_inv (ys @ [y, y + a], zs @ [z, z + b], st')"
proof -
  have "btop_inv ((ys @ [y]) @ [y + a], (zs @ [z]) @ [z + b], st')"
    using assms unfolding inv_snoc
    by (auto simp: sorted_append hd_append)
  then show ?thesis by simp
qed

lemma inv_bump:
  assumes "btop_inv (ys @ [y], zs @ [z], st)" "0 \<le> a" "0 \<le> b" "st \<noteq> NONE"
  shows "btop_inv (ys @ [y + a], zs @ [z + b], st)"
  using assms unfolding inv_snoc
  by (auto simp: sorted_append hd_append)


lemma btop_step_inv:
  assumes tok: "btop_token tok" and inv: "btop_inv (t, q, st)"
  shows "btop_inv (btop_step (t, q, st) tok)"
proof -
  from inv have "t \<noteq> []" "q \<noteq> []"
    by (auto simp: btop_inv_def origin_monotone_def)
  then obtain ys y zs z where tq: "t = ys @ [y]" "q = zs @ [z]"
    by (metis rev_exhaust)
  note i = inv [unfolded tq]
  define len where "len = (case py_int tok of Some n \<Rightarrow> n | None \<Rightarrow> (1::int))"
  have nn: "\<not> startswith tok ''-'' \<Longrightarrow> 0 \<le> len"
    unfolding len_def using tok by (rule btop_length_nonneg)
  have p1: "btop_inv (ys @ [y, y + 1], zs @ [z, z], QUERY_GAP)"
    using inv_push [OF i, of 1 0] by simp
  have p2: "btop_inv (ys @ [y, y], zs @ [z, z + 1], TARGET_GAP)"
    using inv_push [OF i, of 0 1] by simp
  have p3: "0 \<le> len \<Longrightarrow> btop_inv (ys @ [y, y + len], zs @ [z, z + len], MATCH)"
    using inv_push [OF i, of len len] by simp
  have b1: "st = QUERY_GAP \<Longrightarrow> btop_inv (ys @ [y + 1], zs @ [z], st)"
    using inv_bump [OF i, of 1 0] by simp
  have b2: "st = TARGET_GAP \<Longrightarrow> btop_inv (ys @ [y], zs @ [z + 1], st)"
    using inv_bump [OF i, of 0 1] by simp
  have b3: "st = MATCH \<Longrightarrow> 0 \<le> len \<Longrightarrow> btop_inv (ys @ [y + len], zs @ [z + len], st)"
    using inv_bump [OF i, of len len] by simp
  show ?thesis
    unfolding tq btop_step_snoc len_def [symmetric] Let_def
    using p1 p2 p3 b1 b2 b3 nn by presburger
qed

lemma btop_fold_inv:
  "list_all btop_token ts \<Longrightarrow> btop_inv s \<Longrightarrow> btop_inv (foldl btop_step s ts)"
proof (induction ts arbitrary: s)
  case Nil
  then show ?case by simp
next
  case (Cons a ts)
  obtain t q st where s: "s = (t, q, st)" by (cases s)
  from Cons.prems have "btop_token a" "btop_inv (t, q, st)"
    by (simp_all add: s)
  then have "btop_inv (btop_step s a)"
    unfolding s by (rule btop_step_inv)
  moreover from Cons.prems have "list_all btop_token ts" by simp
  ultimately show ?case using Cons.IH by simp
qed

lemma btop_coordinates_origin_monotone: "origin_monotone (btop_coordinates s)"
proof -
  have "btop_inv ([0], [0], NONE)" by (simp add: btop_inv_def origin_monotone_def)
  then have "btop_inv (foldl btop_step ([0], [0], NONE) (btop_tokens s))"
    by (rule btop_fold_inv [OF btop_tokens_valid])
  then show ?thesis
    by (auto simp: btop_coordinates_def btop_inv_def split: prod.splits)
qed


lemma length_bump_last: "length (bump_last n xs) = length xs"
  by (simp add: bump_last_def)

lemma btop_step_count:
  "btop_step (t, q, st) tok = (t', q', st') \<Longrightarrow>
     st' = token_kind tok \<and>
     length t' = length t + (if st = token_kind tok then 0 else 1) \<and>
     length q' = length q + (if st = token_kind tok then 0 else 1)"
  by (auto simp: token_kind_def length_bump_last Let_def split: if_splits)

lemma btop_fold_count:
  "foldl btop_step (t, q, st) ts = (t', q', st') \<Longrightarrow>
     st' = last (st # map token_kind ts) \<and>
     Suc (length t') = length t + length (remdups_adj (st # map token_kind ts)) \<and>
     Suc (length q') = length q + length (remdups_adj (st # map token_kind ts))"
proof (induction ts arbitrary: t q st)
  case Nil
  then show ?case by simp
next
  case (Cons a ts)
  obtain t1 q1 st1 where step: "btop_step (t, q, st) a = (t1, q1, st1)"
    by (cases "btop_step (t, q, st) a")
  note c = btop_step_count [OF step]
  from Cons.prems have "foldl btop_step (t1, q1, st1) ts = (t', q', st')"
    by (simp only: foldl_Cons step)
  from Cons.IH [OF this] c show ?case by auto
qed

lemma token_kind_not_NONE: "token_kind t \<noteq> NONE"
  by (simp add: token_kind_def)

lemma remdups_adj_fresh: "x \<notin> set ks \<Longrightarrow> remdups_adj (x # ks) = x # remdups_adj ks"
  by (cases ks) auto

lemma btop_coordinates_columns:
  "length (fst (btop_coordinates s)) = Suc (length (remdups_adj (map token_kind (btop_tokens s))))"
  "length (snd (btop_coordinates s)) = Suc (length (remdups_adj (map token_kind (btop_tokens s))))"
proof -
  obtain t q st where f: "foldl btop_step ([0], [0], NONE) (btop_tokens s) = (t, q, st)"
    by (cases "foldl btop_step ([0], [0], NONE) (btop_tokens s)")
  have "NONE \<notin> set (map token_kind (btop_tokens s))"
    using token_kind_not_NONE by (auto simp: image_iff) metis
  then have r: "remdups_adj (NONE # map token_kind (btop_tokens s))
      = NONE # remdups_adj (map token_kind (btop_tokens s))"
    by (rule remdups_adj_fresh)
  from btop_fold_count [OF f] show
    "length (fst (btop_coordinates s)) = Suc (length (remdups_adj (map token_kind (btop_tokens s))))"
    "length (snd (btop_coordinates s)) = Suc (length (remdups_adj (map token_kind (btop_tokens s))))"
    by (simp_all add: btop_coordinates_def f r)
qed

section \<open>The loop of \<^verbatim>\<open>parse_cigar\<close>\<close>

lemma digit_not_cigar_letter: "is_digit c \<Longrightarrow> \<not> cigar_letter c"
  by (auto simp: is_digit_def cigar_letter_def)

lemma cigar_tokens_valid: "list_all cigar_token (cigar_tokens s)"
proof (induction s rule: cigar_tokens.induct)
  case 1
  show ?case by simp
next
  case (2 c cs)
  have "list_all is_digit (takeWhile is_digit cs)"
    unfolding list_all_iff by (metis set_takeWhileD)
  with 2 show ?case
    by (auto simp: cigar_token_def all_digits_def cigar_letter_def)
qed

lemma py_int_letter: "t \<in> {''M'', ''D'', ''I''} \<Longrightarrow> py_int t = None"
  by (auto simp: py_int_def strip_def is_space_def py_digits_def is_digit_def)

lemma digits_not_letter: "all_digits ds \<Longrightarrow> ds \<notin> {''M'', ''D'', ''I''}"
  by (auto simp: all_digits_def is_digit_def)

lemma cigar_token_int: "cigar_token t \<Longrightarrow> py_int t = None \<longleftrightarrow> \<not> is_length t"
  using py_int_letter [of t] py_int_digits [of t] py_int_long [of t] digits_not_letter [of t]
  unfolding cigar_token_def is_length_def
  by (cases "length t \<le> int_max_str_digits") auto

lemma cigar_token_nonneg: "cigar_token t \<Longrightarrow> 0 \<le> length_of t"
  unfolding cigar_token_def length_of_def
  using py_int_letter [of t] py_int_run_nonneg [of t]
  by (cases "py_int t") auto

lemma set_every_other: "set (every_other xs) \<subseteq> set xs"
  by (induction xs rule: every_other.induct) auto

lemma cigar_pairs_tokens:
  assumes "p \<in> set (cigar_pairs s)"
  shows "cigar_token (fst p) \<and> cigar_token (snd p)"
proof -
  obtain a b where p: "p = (a, b)" by (cases p)
  have "a \<in> set (cigar_tokens s)"
    using assms set_every_other unfolding cigar_pairs_def token_pairs_def p
    by (metis set_zip_leftD subsetD)
  moreover have "b \<in> set (tl (cigar_tokens s))"
    using assms set_every_other unfolding cigar_pairs_def token_pairs_def p
    by (metis set_zip_rightD subsetD)
  then have "b \<in> set (cigar_tokens s)" by (metis list.set_sel(2) tl_Nil)
  ultimately show ?thesis
    using cigar_tokens_valid [of s] by (simp add: list_all_iff p)
qed

lemma cigar_loop_ok:
  "\<forall>p \<in> set ps. py_int (fst p) \<noteq> None \<Longrightarrow>
   cigar_loop (tcs, qcs, tc, qc) ps =
     Inr (tcs @ running_sums tc (map target_advance ps),
          qcs @ running_sums qc (map query_advance ps),
          tc + sum_list (map target_advance ps),
          qc + sum_list (map query_advance ps))"
proof (induction ps arbitrary: tcs qcs tc qc)
  case Nil
  show ?case by simp
next
  case (Cons p ps)
  obtain l op where p: "p = (l, op)" by (cases p)
  from Cons.prems obtain n where n: "py_int l = Some n" by (auto simp: p)
  have rest: "\<forall>p \<in> set ps. py_int (fst p) \<noteq> None" using Cons.prems by simp
  show ?case
    by (simp add: p n Cons.IH [OF rest] target_advance_def query_advance_def length_of_def)
qed

lemma cigar_loop_error:
  "\<exists>p \<in> set ps. py_int (fst p) = None \<Longrightarrow> cigar_loop s ps = Inl ValueError"
proof (induction ps arbitrary: s)
  case Nil
  then show ?case by simp
next
  case (Cons p ps)
  obtain tcs qcs tc qc where s: "s = (tcs, qcs, tc, qc)" by (cases s)
  obtain l op where p: "p = (l, op)" by (cases p)
  show ?case
  proof (cases "py_int l")
    case None
    then show ?thesis by (simp add: s p)
  next
    case (Some n)
    with Cons.prems have "\<exists>p \<in> set ps. py_int (fst p) = None" by (auto simp: p)
    from Cons.IH [OF this] show ?thesis by (simp add: s p Some Let_def split: prod.splits)
  qed
qed

lemma cigar_coordinates_eq:
  "cigar_coordinates s =
     (if \<exists>p \<in> set (cigar_pairs s). \<not> is_length (fst p) then Inl ValueError
      else Inr (0 # running_sums 0 (map target_advance (cigar_pairs s)),
                0 # running_sums 0 (map query_advance (cigar_pairs s))))"
proof -
  have iff: "(\<exists>p \<in> set (cigar_pairs s). \<not> is_length (fst p)) \<longleftrightarrow>
      (\<exists>p \<in> set (cigar_pairs s). py_int (fst p) = None)"
    using cigar_pairs_tokens cigar_token_int by blast
  show ?thesis
  proof (cases "\<exists>p \<in> set (cigar_pairs s). py_int (fst p) = None")
    case True
    then show ?thesis
      unfolding iff cigar_coordinates_def by (simp add: cigar_loop_error)
  next
    case False
    then have "\<forall>p \<in> set (cigar_pairs s). py_int (fst p) \<noteq> None" by simp
    from cigar_loop_ok [OF this] False show ?thesis
      unfolding iff cigar_coordinates_def by simp
  qed
qed

lemma length_running_sums: "length (running_sums c as) = length as"
  by (induction as arbitrary: c) auto

lemma last_running_sums: "last (c # running_sums c as) = c + sum_list as"
  by (induction as arbitrary: c) auto

lemma sorted_running_sums: "\<forall>a \<in> set as. 0 \<le> a \<Longrightarrow> sorted (c # running_sums c as)"
proof (induction as arbitrary: c)
  case Nil
  show ?case by simp
next
  case (Cons a as)
  have s: "sorted ((c + a) # running_sums (c + a) as)" using Cons by simp
  then have "\<forall>x \<in> set (running_sums (c + a) as). c + a \<le> x" by simp
  moreover have "0 \<le> a" using Cons.prems by simp
  ultimately have "\<forall>x \<in> set (running_sums (c + a) as). c \<le> x" by fastforce
  with s \<open>0 \<le> a\<close> show ?case by simp
qed

lemma nth_running_sums:
  "i < length as \<Longrightarrow> (c # running_sums c as) ! Suc i = (c # running_sums c as) ! i + as ! i"
proof (induction as arbitrary: c i)
  case Nil
  then show ?case by simp
next
  case (Cons a as)
  show ?case
  proof (cases i)
    case 0
    then show ?thesis by simp
  next
    case (Suc j)
    with Cons.prems have "j < length as" by simp
    from Cons.IH [OF this, of "c + a"] show ?thesis by (simp add: Suc)
  qed
qed

lemma advances_nonneg:
  assumes "p \<in> set (cigar_pairs s)"
  shows "0 \<le> target_advance p" "0 \<le> query_advance p"
  using cigar_pairs_tokens [OF assms] cigar_token_nonneg [of "fst p"]
  by (auto simp: target_advance_def query_advance_def)

lemma cigar_coordinates_origin_monotone:
  assumes "cigar_coordinates s = Inr c"
  shows "origin_monotone c"
proof -
  from assms have c: "c = (0 # running_sums 0 (map target_advance (cigar_pairs s)),
      0 # running_sums 0 (map query_advance (cigar_pairs s)))"
    unfolding cigar_coordinates_eq by (simp split: if_splits)
  have "sorted (0 # running_sums 0 (map target_advance (cigar_pairs s)))"
    by (rule sorted_running_sums) (auto simp: advances_nonneg)
  moreover have "sorted (0 # running_sums 0 (map query_advance (cigar_pairs s)))"
    by (rule sorted_running_sums) (auto simp: advances_nonneg)
  ultimately show ?thesis
    unfolding c origin_monotone_def by (simp add: length_running_sums)
qed

lemma cigar_coordinates_returns:
  "(\<exists>c. cigar_coordinates s = Inr c) \<longleftrightarrow> (\<forall>p \<in> set (cigar_pairs s). is_length (fst p))"
  unfolding cigar_coordinates_eq by auto

lemma cigar_coordinates_length:
  assumes "cigar_coordinates s = Inr c"
  shows "length (fst c) = Suc (length (cigar_pairs s))" "length (snd c) = Suc (length (cigar_pairs s))"
proof -
  from assms have c: "c = (0 # running_sums 0 (map target_advance (cigar_pairs s)),
      0 # running_sums 0 (map query_advance (cigar_pairs s)))"
    unfolding cigar_coordinates_eq by (simp split: if_splits)
  show "length (fst c) = Suc (length (cigar_pairs s))" "length (snd c) = Suc (length (cigar_pairs s))"
    unfolding c by (simp_all add: length_running_sums)
qed

lemma every_other_Cons: "every_other (b # r) = b # every_other (tl r)"
  by (cases r) auto

lemma token_pairs_Cons2: "token_pairs (a # b # r) = (a, b) # token_pairs r"
  by (simp add: token_pairs_def every_other_Cons)

lemma cigar_letter_not_digit: "cigar_letter c \<Longrightarrow> \<not> is_digit c"
  using digit_not_cigar_letter by blast

lemma cigar_tokens_pair:
  assumes "all_digits ds" "cigar_letter op"
  shows "cigar_tokens (ds @ op # rest) = ds # [op] # cigar_tokens rest"
proof -
  from assms obtain c cs where ds: "ds = c # cs" "is_digit c" "\<forall>x \<in> set cs. is_digit x"
    by (cases ds) (auto simp: all_digits_def list_all_iff)
  have nd: "\<not> is_digit op" using assms(2) by (rule cigar_letter_not_digit)
  have t: "takeWhile is_digit (cs @ op # rest) = cs"
    using ds(3) nd by (simp add: takeWhile_append2)
  have d: "dropWhile is_digit (cs @ op # rest) = op # rest"
    using ds(3) nd by (simp add: dropWhile_append2)
  show ?thesis
    using ds(2) assms(2) by (simp add: ds(1) t d digit_not_cigar_letter)
qed

lemma cigar_pairs_grammar:
  "cigar_grammar gp \<Longrightarrow> cigar_pairs (cigar_string gp) = map (\<lambda>p. (fst p, [snd p])) gp"
proof -
  assume g: "cigar_grammar gp"
  then have "cigar_tokens (cigar_string gp) = concat (map (\<lambda>p. [fst p, [snd p]]) gp)"
  proof (induction gp)
    case Nil
    show ?case by (simp add: cigar_string_def)
  next
    case (Cons p gp)
    then have "all_digits (fst p)" "cigar_letter (snd p)" "cigar_grammar gp"
      by (simp_all add: cigar_grammar_def)
    with Cons.IH show ?case
      using cigar_tokens_pair [of "fst p" "snd p" "cigar_string gp"]
      by (simp add: cigar_string_def del: cigar_tokens.simps)
  qed
  moreover have "token_pairs (concat (map (\<lambda>p. [fst p, [snd p]]) gp)) = map (\<lambda>p. (fst p, [snd p])) gp"
    by (induction gp) (simp_all add: token_pairs_Cons2, simp add: token_pairs_def)
  ultimately show ?thesis by (simp add: cigar_pairs_def)
qed

lemma grammar_advances:
  assumes "list_all (\<lambda>p. is_length (fst p)) gp"
  shows "sum_list (map target_advance (map (\<lambda>p. (fst p, [snd p])) gp)) = sum_lengths ''MI'' gp"
    and "sum_list (map query_advance (map (\<lambda>p. (fst p, [snd p])) gp)) = sum_lengths ''MD'' gp"
  using assms
  by (induction gp)
    (auto simp: sum_lengths_def target_advance_def query_advance_def
      length_of_def py_int_digits)

lemma cigar_tokens_junk:
  assumes "\<not> is_digit c" "\<not> cigar_letter c"
  shows "cigar_tokens (xs @ c # ys) = cigar_tokens xs @ cigar_tokens ys"
proof (induction xs rule: cigar_tokens.induct)
  case 1
  show ?case using assms by simp
next
  case (2 x xs)
  have t: "takeWhile is_digit (xs @ c # ys) = takeWhile is_digit xs"
    using assms(1) by (rule takeWhile_tail)
  have d: "dropWhile is_digit (xs @ c # ys) = dropWhile is_digit xs @ c # ys"
    using assms(1) by (rule dropWhile_append3)
  show ?case
  proof (cases "cigar_letter x")
    case True
    with 2 show ?thesis by simp
  next
    case False
    show ?thesis
    proof (cases "is_digit x")
      case True
      with False 2 show ?thesis by (simp add: t d)
    next
      case nd: False
      with False 2 show ?thesis by simp
    qed
  qed
qed

lemma token_pairs_trailing:
  "even (length ts) \<Longrightarrow> token_pairs (ts @ [t]) = token_pairs ts"
proof (induction ts rule: every_other.induct)
  case 1
  show ?case by (simp add: token_pairs_def)
next
  case (2 x)
  then show ?case by simp
next
  case (3 x y xs)
  then show ?case by (simp add: token_pairs_Cons2)
qed

section \<open>Properties of the arrays\<close>

lemma round_to_0: "round_to 0 n = n"
  by (simp add: round_to_def)

lemma round_to_cases:
  "round_to e n = n div 2 ^ e * 2 ^ e \<or> round_to e n = n div 2 ^ e * 2 ^ e + 2 ^ e"
  by (simp add: round_to_def Let_def distrib_right)

lemma round_to_exact: "n mod 2 ^ e = 0 \<Longrightarrow> round_to e n = n div 2 ^ e * 2 ^ e"
  by (simp add: round_to_def Let_def)

lemma quotient_le:
  fixes j n :: int
  assumes "j * 2 ^ e \<le> n"
  shows "j * 2 ^ e \<le> n div 2 ^ e * 2 ^ e"
proof -
  have "(j * 2 ^ e) div 2 ^ e \<le> n div 2 ^ e"
    by (rule zdiv_mono1 [OF assms]) simp
  then have "j \<le> n div 2 ^ e" by simp
  then show ?thesis by (rule mult_right_mono) simp
qed

lemma round_to_ge_multiple:
  assumes "j * 2 ^ e \<le> n"
  shows "j * 2 ^ e \<le> round_to e n"
proof -
  have p: "(0::int) \<le> 2 ^ e" by simp
  from quotient_le [OF assms] round_to_cases [of e n] p show ?thesis by linarith
qed

lemma round_to_le_multiple:
  assumes "n \<le> j * 2 ^ e"
  shows "round_to e n \<le> j * 2 ^ e"
proof (cases "n mod 2 ^ e = 0")
  case True
  have "n div 2 ^ e * 2 ^ e + n mod 2 ^ e = n" by (rule div_mult_mod_eq)
  with True assms round_to_exact [OF True] show ?thesis by linarith
next
  case False
  have "(0::int) < 2 ^ e" by simp
  then have "0 \<le> n mod 2 ^ e" by (rule pos_mod_sign)
  with False have r: "0 < n mod 2 ^ e" by linarith
  have d: "n div 2 ^ e * 2 ^ e + n mod 2 ^ e = n" by (rule div_mult_mod_eq)
  have "n div 2 ^ e \<le> (j * 2 ^ e) div 2 ^ e"
    by (rule zdiv_mono1 [OF assms]) simp
  then have q: "n div 2 ^ e \<le> j" by simp
  have "n div 2 ^ e \<noteq> j"
  proof
    assume "n div 2 ^ e = j"
    with d r assms show False by simp
  qed
  with q have "n div 2 ^ e + 1 \<le> j" by linarith
  then have "(n div 2 ^ e + 1) * 2 ^ e \<le> j * 2 ^ e" by (rule mult_right_mono) simp
  then have "n div 2 ^ e * 2 ^ e + 2 ^ e \<le> j * 2 ^ e" by (simp add: distrib_right)
  with round_to_cases [of e n] show ?thesis
    by (metis add.commute le_add_same_cancel2 order_trans zero_le_numeral zero_le_power)
qed


lemma round_to_mono:
  assumes "a \<le> b"
  shows "round_to e a \<le> round_to e b"
proof (cases "a div 2 ^ e = b div 2 ^ e")
  case True
  define X where "X = b div 2 ^ e * (2::int) ^ e"
  define m where "m = (2::int) ^ e"
  have da: "X + a mod m = a" unfolding X_def m_def True [symmetric] by (rule div_mult_mod_eq)
  have db: "X + b mod m = b" unfolding X_def m_def by (rule div_mult_mod_eq)
  from da db assms have r: "a mod m \<le> b mod m" by linarith
  have m: "0 \<le> m" by (simp add: m_def)
  have ra: "round_to e a =
      (if 2 * (a mod m) < m \<or> (2 * (a mod m) = m \<and> even (b div m)) then X else X + m)"
    by (simp add: round_to_def Let_def True X_def m_def distrib_right)
  have rb: "round_to e b =
      (if 2 * (b mod m) < m \<or> (2 * (b mod m) = m \<and> even (b div m)) then X else X + m)"
    by (simp add: round_to_def Let_def X_def m_def distrib_right)
  show ?thesis
  proof (cases "2 * (b mod m) < m \<or> (2 * (b mod m) = m \<and> even (b div m))")
    case c: True
    with r have "2 * (a mod m) < m \<or> (2 * (a mod m) = m \<and> even (b div m))" by linarith
    with c show ?thesis unfolding ra rb by simp
  next
    case c: False
    then have "round_to e b = X + m" unfolding rb by (rule if_not_P)
    moreover have "round_to e a \<le> X + m" unfolding ra using m by (rule_tac if_split [THEN iffD2]) simp
    ultimately show ?thesis by simp
  qed
next
  case False
  have "a div 2 ^ e \<le> b div 2 ^ e" by (rule zdiv_mono1 [OF assms]) simp
  with False have "a div 2 ^ e + 1 \<le> b div 2 ^ e" by linarith
  then have "(a div 2 ^ e + 1) * 2 ^ e \<le> b div 2 ^ e * 2 ^ e"
    by (rule mult_right_mono) simp
  then have 1: "a div 2 ^ e * 2 ^ e + 2 ^ e \<le> b div 2 ^ e * 2 ^ e"
    by (simp add: distrib_right)
  have p: "(0::int) \<le> 2 ^ e" by simp
  from 1 p round_to_cases [of e a] round_to_cases [of e b] show ?thesis by linarith
qed

lemma round_double_0: "round_double 0 = 0"
  by (simp add: round_double_def round_to_def)

lemma round_double_small:
  assumes "0 \<le> n" "bitlen n \<le> 53"
  shows "round_double n = n"
  using assms by (simp add: round_double_def round_to_0)

lemma round_double_bounds:
  assumes "0 < n"
  shows "2 ^ nat (bitlen n - 1) \<le> round_double n \<and> round_double n \<le> 2 ^ nat (bitlen n)"
proof (cases "bitlen n \<le> 53")
  case True
  with assms bitlen_bounds [OF assms] show ?thesis by (simp add: round_double_small)
next
  case False
  define e where "e = nat (bitlen n - 53)"
  have rd: "round_double n = round_to e n" using assms by (simp add: round_double_def e_def)
  have lo: "(2::int) ^ nat (bitlen n - 1) = 2 ^ 52 * 2 ^ e"
    using False unfolding e_def power_add [symmetric] by (intro arg_cong [where f = "\<lambda>k. 2 ^ k"]) linarith
  have hi: "(2::int) ^ nat (bitlen n) = 2 ^ 53 * 2 ^ e"
    using False unfolding e_def power_add [symmetric] by (intro arg_cong [where f = "\<lambda>k. 2 ^ k"]) linarith
  from bitlen_bounds [OF assms] have b: "2 ^ 52 * 2 ^ e \<le> n" "n \<le> 2 ^ 53 * 2 ^ e"
    unfolding lo hi by simp_all
  from round_to_ge_multiple [OF b(1)] round_to_le_multiple [OF b(2)]
  show ?thesis unfolding rd lo hi by simp
qed

lemma bitlen_mono: "a \<le> b \<Longrightarrow> bitlen a \<le> bitlen b"
  unfolding bitlen_def by (simp add: floorlog_mono nat_mono)

lemma round_double_mono:
  assumes "0 \<le> a" "a \<le> b"
  shows "round_double a \<le> round_double b"
proof (cases "a = 0")
  case True
  show ?thesis
  proof (cases "b = 0")
    case True
    with \<open>a = 0\<close> show ?thesis by simp
  next
    case False
    with assms have "0 < b" by simp
    from round_double_bounds [OF this] have "0 \<le> round_double b"
      by (meson order_trans zero_le_numeral zero_le_power)
    with \<open>a = 0\<close> show ?thesis by (simp add: round_double_0)
  qed
next
  case False
  with assms have a: "0 < a" and b: "0 < b" by simp_all
  show ?thesis
  proof (cases "bitlen a = bitlen b")
    case True
    then have "round_double a = round_to (nat (bitlen b - 53)) a"
      using a by (simp add: round_double_def)
    moreover have "round_double b = round_to (nat (bitlen b - 53)) b"
      using b by (simp add: round_double_def)
    ultimately show ?thesis using round_to_mono [OF assms(2)] by simp
  next
    case False
    with bitlen_mono [OF assms(2)] have lt: "bitlen a \<le> bitlen b - 1" by linarith
    have "nat (bitlen a) \<le> nat (bitlen b - 1)" using lt by simp
    then have "(2::int) ^ nat (bitlen a) \<le> 2 ^ nat (bitlen b - 1)"
      by (rule power_increasing) simp
    with round_double_bounds [OF a] round_double_bounds [OF b] show ?thesis by linarith
  qed
qed

lemma rows_numpy_array:
  "rows (numpy_array c) = c \<or>
   rows (numpy_array c) = (map round_double (fst c), map round_double (snd c))"
  by (simp add: numpy_array_def Let_def)

lemma length_rows_numpy_array:
  "length (fst (rows (numpy_array c))) = length (fst c)"
  "length (snd (rows (numpy_array c))) = length (snd c)"
  using rows_numpy_array [of c] by auto

lemma numpy_array_Int64:
  "list_all int64 (fst c @ snd c) \<Longrightarrow> numpy_array c = Int64 (fst c) (snd c)"
  by (simp add: numpy_array_def)

lemma sorted_from_0:
  assumes "xs \<noteq> []" "hd xs = 0" "sorted xs"
  shows "\<forall>x \<in> set xs. (0::int) \<le> x"
  using assms by (cases xs) auto

lemma sorted_map_round_double:
  "sorted xs \<Longrightarrow> \<forall>x \<in> set xs. 0 \<le> x \<Longrightarrow> sorted (map round_double xs)"
  by (induction xs) (auto simp: round_double_mono)

lemma origin_monotone_round:
  assumes "origin_monotone c"
  shows "origin_monotone (map round_double (fst c), map round_double (snd c))"
proof -
  from assms have ne: "fst c \<noteq> []" "snd c \<noteq> []" and hd: "hd (fst c) = 0" "hd (snd c) = 0"
    and s: "sorted (fst c)" "sorted (snd c)" and l: "length (fst c) = length (snd c)"
    by (auto simp: origin_monotone_def)
  have "sorted (map round_double (fst c))"
    using s(1) sorted_from_0 [OF ne(1) hd(1) s(1)] by (rule sorted_map_round_double)
  moreover have "sorted (map round_double (snd c))"
    using s(2) sorted_from_0 [OF ne(2) hd(2) s(2)] by (rule sorted_map_round_double)
  ultimately show ?thesis
    using ne hd l by (simp add: origin_monotone_def hd_map round_double_0)
qed

lemma numpy_array_origin_monotone:
  "origin_monotone c \<Longrightarrow> origin_monotone (rows (numpy_array c))"
  using rows_numpy_array [of c] origin_monotone_round [of c] by auto

lemma sorted_le_last: "sorted xs \<Longrightarrow> x \<in> set xs \<Longrightarrow> x \<le> (last xs :: int)"
  by (induction xs) (auto split: if_splits)

lemma numpy_array_below:
  assumes "origin_monotone (t, q)" "last t < 2 ^ 63" "last q < 2 ^ 63"
  shows "numpy_array (t, q) = Int64 t q"
proof -
  from assms(1) have ne: "t \<noteq> []" "q \<noteq> []" and hd: "hd t = 0" "hd q = 0"
    and s: "sorted t" "sorted q"
    by (auto simp: origin_monotone_def)
  have "\<forall>x \<in> set t. int64 x"
    using sorted_from_0 [OF ne(1) hd(1) s(1)] sorted_le_last [OF s(1)] assms(2)
    by (fastforce simp: int64_def)
  moreover have "\<forall>x \<in> set q. int64 x"
    using sorted_from_0 [OF ne(2) hd(2) s(2)] sorted_le_last [OF s(2)] assms(3)
    by (fastforce simp: int64_def)
  ultimately have "list_all int64 (fst (t, q) @ snd (t, q))" by (auto simp: list_all_iff)
  from numpy_array_Int64 [OF this] show ?thesis by simp
qed

lemma rows_numpy_array_nth:
  assumes "fst c ! Suc i = fst c ! i" "snd c ! Suc i = snd c ! i"
    "Suc i < length (fst c)" "Suc i < length (snd c)"
  shows "fst (rows (numpy_array c)) ! Suc i = fst (rows (numpy_array c)) ! i \<and>
         snd (rows (numpy_array c)) ! Suc i = snd (rows (numpy_array c)) ! i"
  using rows_numpy_array [of c] assms by auto


section \<open>From the fields to the alignment\<close>

lemma wrap64_id: "int64 x \<Longrightarrow> wrap64 x = x"
  by (simp add: int64_def wrap64_def)

lemma int64_wrap64: "int64 (wrap64 x)"
proof -
  have "0 \<le> (x + 2 ^ 63) mod (2 ^ 64 :: int)" "(x + 2 ^ 63) mod (2 ^ 64 :: int) < 2 ^ 64"
    by simp_all
  moreover have "(2 :: int) ^ 64 = 2 ^ 63 + 2 ^ 63" by simp
  ultimately show ?thesis unfolding int64_def wrap64_def by linarith
qed

lemma dispatched_read:
  "dispatched pyfloat self line r \<Longrightarrow>
   read_next_alignment pyfloat bio self line = assemble bio self r"
  by (simp add: dispatched_def read_next_alignment_def Let_def)

lemma resolve_coordinates_Int64:
  assumes "coordinates r = Some (Int64 t q)" "query_start r = Some qs" "query_end r = Some qe"
    "int64 qs"
  shows "resolve_coordinates r =
     Returns (r\<lparr>coordinates := Some (Int64 t (rebased_query qs qe q))\<rparr>)"
  using assms by (simp add: resolve_coordinates_def rebase_query_def rebased_query_def)

lemma resolve_coordinates_None:
  assumes "coordinates r = None"
  shows "\<exists>r1. resolve_coordinates r = Returns r1"
  using assms by (simp add: resolve_coordinates_def Let_def)

lemma resolve_coordinates_fields:
  assumes "resolve_coordinates r = Returns r1"
  shows "query_sequence r1 = query_sequence r \<and> query_start r1 = query_start r \<and>
     query_end r1 = query_end r \<and> target_sequence r1 = target_sequence r \<and>
     target_start r1 = target_start r \<and> target_end r1 = target_end r \<and>
     query_id r1 = query_id r \<and> target_id r1 = target_id r \<and>
     query_size r1 = query_size r \<and> target_length r1 = target_length r \<and>
     target_annotations r1 = target_annotations r"
proof (cases "coordinates r")
  case None
  show ?thesis
    using assms None
    by (cases "alignment_length r"; cases "query_start r"; cases "query_end r")
      (auto simp: resolve_coordinates_def Let_def ann_def query_ann_def)
next
  case (Some c)
  with assms obtain c' where "r1 = r\<lparr>coordinates := Some c'\<rparr>"
    by (auto simp: resolve_coordinates_def split: outcome.splits)
  then show ?thesis by simp
qed

lemma resolve_coordinates_Some:
  assumes "coordinates r = Some c" "resolve_coordinates r = Returns r1"
  shows "\<exists>c'. r1 = r\<lparr>coordinates := Some c'\<rparr> \<and>
     rebase_query (query_start r) (query_end r) c = Returns c'"
  using assms by (auto simp: resolve_coordinates_def split: outcome.splits)

lemma rebase_query_kind:
  assumes "rebase_query q_start q_end c = Returns c'"
  shows "(case c of Int64 t q \<Rightarrow> (case c' of Int64 t' q' \<Rightarrow> True | _ \<Rightarrow> False)
          | UInt64 t q \<Rightarrow> False
          | Float64 t q \<Rightarrow> (case c' of Float64 t' q' \<Rightarrow> True | _ \<Rightarrow> False)
          | Object t q \<Rightarrow> (case c' of Object t' q' \<Rightarrow> True | _ \<Rightarrow> False))"
  using assms
  by (cases q_start; cases q_end; cases c)
    (auto simp: rebase_query_def split: if_splits)

lemma resolve_coordinates_keeps_fit:
  assumes "offsets_fit r" "resolve_coordinates r = Returns r1"
  shows "offsets_fit r1"
proof (cases "coordinates r")
  case None
  have "coordinates r1 = None"
    using assms(2) None
    by (cases "alignment_length r"; cases "query_start r"; cases "query_end r")
      (auto simp: resolve_coordinates_def Let_def ann_def query_ann_def)
  then show ?thesis by (simp add: offsets_fit_def)
next
  case (Some c)
  from resolve_coordinates_Some [OF Some assms(2)] obtain c' where
    r1: "r1 = r\<lparr>coordinates := Some c'\<rparr>"
    and c': "rebase_query (query_start r) (query_end r) c = Returns c'" by blast
  from assms(1) Some rebase_query_kind [OF c'] show ?thesis
    unfolding r1 by (cases c; cases c') (simp_all add: offsets_fit_def)
qed

lemma rebase_query_fit:
  assumes "case c of Object t q \<Rightarrow> True | UInt64 t q \<Rightarrow> False | _ \<Rightarrow> int64 qs"
  shows "\<exists>c'. rebase_query (Some qs) (Some qe) c = Returns c'"
  using assms by (cases c) (simp_all add: rebase_query_def)

lemma resolve_coordinates_fit:
  assumes "offsets_fit r" "query_start r = Some qs" "query_end r = Some qe"
  shows "\<exists>r1. resolve_coordinates r = Returns r1"
proof (cases "coordinates r")
  case None
  from resolve_coordinates_None [OF None] show ?thesis .
next
  case (Some c)
  have "case c of Object t q \<Rightarrow> True | UInt64 t q \<Rightarrow> False | _ \<Rightarrow> int64 qs"
    using assms(1,2) Some by (cases c) (simp_all add: offsets_fit_def fits_int64_def)
  from rebase_query_fit [OF this, of qe] show ?thesis
    by (auto simp: resolve_coordinates_def Some assms(2,3))
qed

lemma resolve_coordinates_not_beyond:
  assumes "offsets_fit r"
  shows "resolve_coordinates r \<noteq> Beyond_int64"
proof (cases "query_start r")
  case None
  then show ?thesis
    by (cases "coordinates r") (simp_all add: resolve_coordinates_def Let_def rebase_query_def)
next
  case qs: (Some qs)
  show ?thesis
  proof (cases "query_end r")
    case None
    with qs show ?thesis
      by (cases "coordinates r")
        (simp_all add: resolve_coordinates_def Let_def rebase_query_def)
  next
    case (Some qe)
    from resolve_coordinates_fit [OF assms qs Some] show ?thesis by auto
  qed
qed

lemma resolve_coordinates_Some_inv:
  assumes "coordinates r = Some (Int64 t q)" "resolve_coordinates r = Returns r1"
  shows "\<exists>qs qe. query_start r = Some qs \<and> query_end r = Some qe \<and> int64 qs"
proof -
  from assms obtain qs qe where qq: "query_start r = Some qs" "query_end r = Some qe"
    by (cases "query_start r"; cases "query_end r")
      (simp_all add: resolve_coordinates_def rebase_query_def)
  have "int64 qs"
    using assms qq
    by (auto simp: resolve_coordinates_def rebase_query_def split: if_splits)
  with qq show ?thesis by blast
qed

lemma query_record_mismatch:
  assumes "metadata_Program self = ''TBLASTN''" "query_sequence r = Some s"
    "query_start r = Some qs" "query_end r = Some qe"
    "int (length (remove_dashes s)) \<noteq> qe - qs"
  shows "query_record bio self r = Inl AssertionError"
  using assms by (simp add: query_record_def query_args_def)

lemma query_record_TBLASTX:
  assumes "metadata_Program self = ''TBLASTX''" "query_sequence r = Some s"
  shows "query_record bio self r =
     build_record bio (Some (Seq_defined (remove_dashes s))) (query_id r)
       (self_query_description self)
       (AList.update ''end'' (opt_int (query_end r))
         (AList.update ''start'' (opt_int (query_start r)) (query_annotations r)))"
  using assms by (simp add: query_record_def query_args_def)

lemma target_record_TBLAST:
  assumes "metadata_Program self = ''TBLASTN'' \<or> metadata_Program self = ''TBLASTX''"
    "target_sequence r = Some s"
  shows "target_record bio self r =
     (case build_record bio (Some (Seq_defined (remove_dashes s))) (target_id r) None
             (AList.update ''length'' (opt_int (target_length r))
               (AList.update ''end'' (opt_int (target_end r))
                 (AList.update ''start'' (opt_int (target_start r))
                   (target_annotations r)))) of
        Inl e \<Rightarrow> Raises e
      | Inr target \<Rightarrow> Returns (target, coordinates r))"
  using assms by (simp add: target_record_def)

lemma rebase_target_fit:
  assumes "case c of Object t q \<Rightarrow> True | UInt64 t q \<Rightarrow> False | _ \<Rightarrow> int64 ts"
  shows "\<exists>c'. rebase_target (Some ts) c = Returns c'"
  using assms by (cases c) (simp_all add: rebase_target_def)

lemma target_record_mismatch:
  assumes "metadata_Program self \<noteq> ''TBLASTN''" "metadata_Program self \<noteq> ''TBLASTX''"
    "target_sequence r = Some s" "target_start r = Some ts" "target_end r = Some te"
    "int (length (remove_dashes s)) \<noteq> te - ts" "offsets_fit r"
  shows "target_record bio self r = Raises AssertionError"
proof (cases "coordinates r")
  case None
  with assms show ?thesis by (simp add: target_record_def target_args_def)
next
  case (Some c)
  have "case c of Object t q \<Rightarrow> True | UInt64 t q \<Rightarrow> False | _ \<Rightarrow> int64 ts"
    using assms(4,7) Some by (cases c) (simp_all add: offsets_fit_def fits_int64_def)
  from rebase_target_fit [OF this] obtain c' where
    "rebase_target (Some ts) c = Returns c'" by blast
  with assms Some show ?thesis
    by (simp add: target_record_def target_args_def)
qed

lemma target_record_coordinates:
  assumes "target_record bio self r = Returns (target, coords)"
    "coordinates r = Some (Int64 t q)"
  shows "if metadata_Program self = ''TBLASTN'' \<or> metadata_Program self = ''TBLASTX''
         then coords = Some (Int64 t q)
         else (\<exists>ts. target_start r = Some ts \<and> int64 ts \<and>
                 coords = Some (Int64 (map (\<lambda>v. wrap64 (v + ts)) t) q))"
proof (cases "metadata_Program self = ''TBLASTN'' \<or> metadata_Program self = ''TBLASTX''")
  case True
  with assms show ?thesis by (auto simp: target_record_def split: sum.splits)
next
  case False
  show ?thesis
  proof (cases "target_start r")
    case None
    with assms False show ?thesis by (simp add: target_record_def rebase_target_def)
  next
    case (Some ts)
    with assms False show ?thesis
      by (auto simp: target_record_def rebase_target_def split: sum.splits if_splits)
  qed
qed

lemma assemble_cases:
  assumes "assemble bio self r = Returns al"
  obtains r1 target query coords where
    "records_coordinates bio self r = Returns (r1, target, query, coords)"
    "Alignment bio target query coords = Inr (al_object al)"
  using assms by (auto simp: assemble_def split: outcome.splits sum.splits prod.splits)

lemma records_coordinates_cases:
  assumes "records_coordinates bio self r = Returns (r1, target, query, coords)"
  shows "resolve_coordinates r = Returns r1 \<and> query_record bio self r1 = Inr query \<and>
     target_record bio self r1 = Returns (target, coords)"
  using assms
  by (auto simp: records_coordinates_def split: outcome.splits sum.splits prod.splits)

lemma records_coordinates_rebased:
  assumes "records_coordinates bio self r = Returns (r1, target, query, coords)"
    "coordinates r = Some (Int64 t q)"
  shows "\<exists>qs qe. query_start r = Some qs \<and> query_end r = Some qe \<and> int64 qs \<and>
     (if metadata_Program self = ''TBLASTN'' \<or> metadata_Program self = ''TBLASTX''
      then coords = Some (Int64 t (rebased_query qs qe q))
      else (\<exists>ts. target_start r = Some ts \<and> int64 ts \<and>
              coords = Some (Int64 (map (\<lambda>v. wrap64 (v + ts)) t) (rebased_query qs qe q))))"
proof -
  note a = records_coordinates_cases [OF assms(1)]
  from resolve_coordinates_Some_inv [OF assms(2) a [THEN conjunct1]] obtain qs qe where
    qq: "query_start r = Some qs" "query_end r = Some qe" "int64 qs" by blast
  have "r1 = r\<lparr>coordinates := Some (Int64 t (rebased_query qs qe q))\<rparr>"
    using resolve_coordinates_Int64 [OF assms(2) qq] a by simp
  then have c: "coordinates r1 = Some (Int64 t (rebased_query qs qe q))"
    and ts: "target_start r1 = target_start r"
    by simp_all
  from target_record_coordinates [OF a [THEN conjunct2, THEN conjunct2] c] show ?thesis
    unfolding ts using qq by simp
qed

lemma target_record_not_beyond:
  assumes "offsets_fit r"
  shows "target_record bio self r \<noteq> Beyond_int64"
proof (cases "coordinates r")
  case None
  then show ?thesis
    by (auto simp: target_record_def split: sum.splits outcome.splits)
next
  case (Some c)
  show ?thesis
  proof (cases "target_start r")
    case None
    with Some show ?thesis
      by (auto simp: target_record_def rebase_target_def split: sum.splits)
  next
    case ts: (Some ts)
    have "case c of Object t q \<Rightarrow> True | UInt64 t q \<Rightarrow> False | _ \<Rightarrow> int64 ts"
      using assms ts Some by (cases c) (simp_all add: offsets_fit_def fits_int64_def)
    from rebase_target_fit [OF this] obtain c' where
      "rebase_target (Some ts) c = Returns c'" by blast
    with Some ts show ?thesis
      by (auto simp: target_record_def split: sum.splits)
  qed
qed

lemma assemble_not_beyond:
  assumes "offsets_fit r"
  shows "assemble bio self r \<noteq> Beyond_int64"
proof (cases "resolve_coordinates r")
  case (Raises e)
  then show ?thesis by (simp add: assemble_def records_coordinates_def)
next
  case Beyond_int64
  with resolve_coordinates_not_beyond [OF assms] show ?thesis by simp
next
  case (Returns r1)
  note w = resolve_coordinates_keeps_fit [OF assms Returns]
  show ?thesis
  proof (cases "query_record bio self r1")
    case (Inl e)
    with Returns show ?thesis by (simp add: assemble_def records_coordinates_def)
  next
    case (Inr query)
    show ?thesis
    proof (cases "target_record bio self r1")
      case (Raises e)
      with Returns Inr show ?thesis by (simp add: assemble_def records_coordinates_def)
    next
      case Beyond_int64
      with target_record_not_beyond [OF w, of bio self] show ?thesis by simp
    next
      case (Returns tc)
      with \<open>resolve_coordinates r = Returns r1\<close> Inr show ?thesis
        by (cases tc) (simp add: assemble_def records_coordinates_def split: sum.splits)
    qed
  qed
qed

lemma rebased_query_forward:
  assumes "qs < qe" "\<forall>v \<in> set q. int64 (v + qs)"
  shows "rebased_query qs qe q = map (\<lambda>v. v + qs) q"
  using assms by (simp add: rebased_query_def wrap64_id)

lemma rebased_query_reverse:
  assumes "\<not> qs < qe" "\<forall>v \<in> set q. int64 (qs - v) \<and> int64 (qs - v + 1)"
  shows "rebased_query qs qe q = map (\<lambda>v. qs - v + 1) q"
  using assms by (simp add: rebased_query_def wrap64_id)

lemma example_Alignment_Some:
  "Alignment example_biopython target query (Some c) = Inr object \<Longrightarrow>
   object = (target, query, Some c)"
  by (auto simp: example_biopython_def example_Alignment_def)

text \<open>A length of 4301 digits: the string is of the grammar, and \<^verbatim>\<open>int\<close> refuses it.\<close>

lemma cigar_4301_digits:
  "cigar_grammar [(replicate 4301 CHR ''1'', CHR ''M'')] \<and>
   parse_cigar (cigar_string [(replicate 4301 CHR ''1'', CHR ''M'')]) = Inl ValueError"
proof -
  let ?gp = "[(replicate 4301 CHR ''1'', CHR ''M'')]"
  have g: "cigar_grammar ?gp"
    by (simp add: cigar_grammar_def all_digits_def is_digit_def cigar_letter_def list_all_iff)
  have "\<not> is_length (replicate 4301 CHR ''1'')"
    by (simp add: is_length_def int_max_str_digits_def)
  then have "parse_cigar (cigar_string ?gp) = Inl ValueError"
    unfolding parse_cigar_def cigar_coordinates_eq cigar_pairs_grammar [OF g] by simp
  with g show ?thesis by blast
qed

section \<open>The BTOP decoder\<close>

text \<open>
  C1 (as the code has it). The BTOP string \<open>5AA3\<close> is the three tokens \<open>5\<close>, \<open>AA\<close>,
  \<open>3\<close>. The first opens a column in state MATCH; the mismatch pair and the last run find
  the state MATCH and extend that column in place. The matrix is the int64 array
  \<open>[[0,9],[0,9]]\<close>: the three runs share one column.
\<close>

theorem parse_btop_5AA3:
  "btop_tokens ''5AA3'' = [''5'', ''AA'', ''3''] \<and> parse_btop ''5AA3'' = Int64 [0, 9] [0, 9]"
  by code_simp

text \<open>
  C1 as stated, with a column for each of the three runs, fails.
\<close>

theorem parse_btop_5AA3_not_separate:
  "rows (parse_btop ''5AA3'') \<noteq> ([0, 5, 6, 9], [0, 5, 6, 9])"
  by code_simp

section \<open>Both decoders\<close>

text \<open>
  C7 (as the code has it). For every input string \<^verbatim>\<open>parse_btop\<close> returns a matrix
  with at least one column, whose first column is \<open>(0,0)\<close> and whose two rows never
  decrease (also when the values are stored as doubles); on the empty string it returns
  the single origin column. \<^verbatim>\<open>parse_cigar\<close> returns such a matrix whenever it returns,
  and it returns exactly when every token that stands in a length position (the first of
  a pair of tokens) is a run of at most 4300 digits: a letter \<open>M\<close>, \<open>D\<close> or \<open>I\<close> there,
  or a longer run, makes \<^verbatim>\<open>int\<close> raise ValueError. On the empty string it returns the
  single origin column too.
\<close>

theorem decoders_origin_monotone:
  "origin_monotone (rows (parse_btop s)) \<and> parse_btop '''' = Int64 [0] [0] \<and>
   (\<forall>a. parse_cigar s = Inr a \<longrightarrow> origin_monotone (rows a)) \<and>
   ((\<exists>a. parse_cigar s = Inr a) \<longleftrightarrow> (\<forall>p \<in> set (cigar_pairs s). is_length (fst p))) \<and>
   parse_cigar '''' = Inr (Int64 [0] [0])"
proof -
  have 1: "origin_monotone (rows (parse_btop s))"
    unfolding parse_btop_def
    by (rule numpy_array_origin_monotone [OF btop_coordinates_origin_monotone])
  have 2: "parse_btop '''' = Int64 [0] [0]" by code_simp
  have 3: "origin_monotone (rows a)" if "parse_cigar s = Inr a" for a
  proof -
    from that obtain c where c: "cigar_coordinates s = Inr c" "a = numpy_array c"
      by (auto simp: parse_cigar_def split: sum.splits)
    show ?thesis unfolding c(2)
      by (rule numpy_array_origin_monotone [OF cigar_coordinates_origin_monotone [OF c(1)]])
  qed
  have 4: "(\<exists>a. parse_cigar s = Inr a) \<longleftrightarrow> (\<forall>p \<in> set (cigar_pairs s). is_length (fst p))"
    unfolding cigar_coordinates_returns [symmetric]
    by (auto simp: parse_cigar_def split: sum.splits)
  have 5: "parse_cigar '''' = Inr (Int64 [0] [0])" by code_simp
  from 1 2 3 4 5 show ?thesis by blast
qed

text \<open>
  C7 at the CIGAR string \<open>4M2I3M\<close> and the BTOP string \<open>5AA3\<close>.
\<close>

theorem decoders_origin_monotone_witness:
  "origin_monotone (rows (parse_btop ''5AA3'')) \<and>
   parse_cigar ''4M2I3M'' = Inr (Int64 [0, 4, 6, 9] [0, 4, 4, 7]) \<and>
   origin_monotone ([0, 4, 6, 9], [0, 4, 4, 7]) \<and>
   cigar_pairs ''4M2I3M'' = [(''4'', ''M''), (''2'', ''I''), (''3'', ''M'')] \<and>
   is_length ''4'' \<and> is_length ''2'' \<and> is_length ''3''"
proof -
  have p: "parse_cigar ''4M2I3M'' = Inr (Int64 [0, 4, 6, 9] [0, 4, 4, 7])" by code_simp
  have c: "cigar_pairs ''4M2I3M'' = [(''4'', ''M''), (''2'', ''I''), (''3'', ''M'')]" by code_simp
  from decoders_origin_monotone [of "''4M2I3M''"] decoders_origin_monotone [of "''5AA3''"] p c
  show ?thesis by simp
qed

text \<open>
  C7 as stated, for every input string, fails for \<^verbatim>\<open>parse_cigar\<close>: the string \<open>MM\<close> is
  the pair of tokens \<open>(M, M)\<close>, and \<^verbatim>\<open>int("M")\<close> raises ValueError, so no matrix is
  returned.
\<close>

theorem parse_cigar_MM: "parse_cigar ''MM'' = Inl ValueError"
  by code_simp

text \<open>
  C2 (as the code has it). \<^verbatim>\<open>parse_btop\<close> merges: its matrix has the origin column and
  one column for each maximal run of consecutive tokens that take the same branch of the
  loop. \<^verbatim>\<open>parse_cigar\<close> does not merge: its matrix has the origin column and one column
  for each pair of tokens, so \<open>2M3M\<close> gives \<open>[[0,2,5],[0,2,5]]\<close> and \<open>5M\<close> gives
  \<open>[[0,5],[0,5]]\<close>.
\<close>

theorem btop_merges_cigar_does_not:
  "length (fst (rows (parse_btop s))) =
     Suc (length (remdups_adj (map token_kind (btop_tokens s)))) \<and>
   length (snd (rows (parse_btop s))) =
     Suc (length (remdups_adj (map token_kind (btop_tokens s)))) \<and>
   (\<forall>a. parse_cigar s = Inr a \<longrightarrow>
      length (fst (rows a)) = Suc (length (cigar_pairs s)) \<and>
      length (snd (rows a)) = Suc (length (cigar_pairs s))) \<and>
   parse_cigar ''2M3M'' = Inr (Int64 [0, 2, 5] [0, 2, 5]) \<and>
   parse_cigar ''5M'' = Inr (Int64 [0, 5] [0, 5])"
proof -
  have 1: "parse_cigar ''2M3M'' = Inr (Int64 [0, 2, 5] [0, 2, 5])" by code_simp
  have 2: "parse_cigar ''5M'' = Inr (Int64 [0, 5] [0, 5])" by code_simp
  have 3: "length (fst (rows a)) = Suc (length (cigar_pairs s)) \<and>
      length (snd (rows a)) = Suc (length (cigar_pairs s))" if "parse_cigar s = Inr a" for a
  proof -
    from that obtain c where c: "cigar_coordinates s = Inr c" "a = numpy_array c"
      by (auto simp: parse_cigar_def split: sum.splits)
    show ?thesis unfolding c(2) length_rows_numpy_array
      using cigar_coordinates_length [OF c(1)] by simp
  qed
  have 4: "length (fst (rows (parse_btop s))) =
     Suc (length (remdups_adj (map token_kind (btop_tokens s))))"
    "length (snd (rows (parse_btop s))) =
     Suc (length (remdups_adj (map token_kind (btop_tokens s))))"
    unfolding parse_btop_def length_rows_numpy_array
    by (rule btop_coordinates_columns)+
  from 1 2 3 4 show ?thesis by blast
qed

text \<open>
  C2 at the BTOP string \<open>5AA3-A-CG-3\<close> (seven tokens, four runs, five columns) and at
  the CIGAR string \<open>2M3M\<close>.
\<close>

theorem btop_merges_cigar_does_not_witness:
  "map token_kind (btop_tokens ''5AA3-A-CG-3'') =
     [MATCH, MATCH, MATCH, QUERY_GAP, QUERY_GAP, TARGET_GAP, MATCH] \<and>
   parse_btop ''5AA3-A-CG-3'' = Int64 [0, 9, 11, 11, 14] [0, 9, 9, 10, 13] \<and>
   length (fst (rows (parse_btop ''5AA3-A-CG-3''))) =
     Suc (length [MATCH, QUERY_GAP, TARGET_GAP, MATCH]) \<and>
   length (fst (rows (Int64 [0, 2, 5] [0, 2, 5]))) = Suc (length (cigar_pairs ''2M3M''))"
proof -
  have k: "map token_kind (btop_tokens ''5AA3-A-CG-3'') =
      [MATCH, MATCH, MATCH, QUERY_GAP, QUERY_GAP, TARGET_GAP, MATCH]"
    by (simp add: token_kind_def startswith_def endswith_def is_digit_def btop_letter_def)
  have b: "parse_btop ''5AA3-A-CG-3'' = Int64 [0, 9, 11, 11, 14] [0, 9, 9, 10, 13]"
    by code_simp
  have p: "parse_cigar ''2M3M'' = Inr (Int64 [0, 2, 5] [0, 2, 5])" by code_simp
  note t1 = btop_merges_cigar_does_not [of "''5AA3-A-CG-3''", THEN conjunct1, unfolded k]
  note t2 = btop_merges_cigar_does_not [of "''2M3M''", THEN conjunct2, THEN conjunct2,
      THEN conjunct1, rule_format, OF p, THEN conjunct1]
  show ?thesis using t1 t2 by (simp add: k b del: btop_tokens.simps)
qed

text \<open>
  C2 as stated fails for \<^verbatim>\<open>parse_cigar\<close>: \<open>2M3M\<close> and \<open>5M\<close> do not decode to the same
  matrix.
\<close>

theorem cigar_2M3M_not_5M: "parse_cigar ''2M3M'' \<noteq> parse_cigar ''5M''"
  by code_simp

section \<open>The CIGAR decoder\<close>

text \<open>
  C5 (as the code has it). For every CIGAR string of the grammar (a concatenation of
  pairs of a decimal length and an operation among \<open>M\<close>, \<open>I\<close>, \<open>D\<close>) whose lengths have
  at most 4300 digits each, \<^verbatim>\<open>parse_cigar\<close> returns a matrix. When the sum of the
  lengths of the \<open>M\<close> and \<open>I\<close> pairs and the sum of the lengths of the \<open>M\<close> and \<open>D\<close> pairs
  are both below \<open>2 ^ 63\<close>, the matrix is an int64 array and its final column is these
  two sums; in every case its final column is these two sums or the doubles nearest to
  them. And \<open>4M2I3M\<close> decodes to the columns \<open>(0,0), (4,4), (6,4), (9,7)\<close>.
\<close>

theorem parse_cigar_final_column:
  assumes "cigar_grammar gp" and "list_all (\<lambda>p. length (fst p) \<le> int_max_str_digits) gp"
  shows "(\<exists>a t q. parse_cigar (cigar_string gp) = Inr a \<and> rows a = (t, q) \<and>
            (last t, last q) \<in>
              {(sum_lengths ''MI'' gp, sum_lengths ''MD'' gp),
               (round_double (sum_lengths ''MI'' gp), round_double (sum_lengths ''MD'' gp))} \<and>
            (sum_lengths ''MI'' gp < 2 ^ 63 \<and> sum_lengths ''MD'' gp < 2 ^ 63 \<longrightarrow>
               a = Int64 t q \<and>
               (last t, last q) = (sum_lengths ''MI'' gp, sum_lengths ''MD'' gp))) \<and>
         parse_cigar ''4M2I3M'' = Inr (Int64 [0, 4, 6, 9] [0, 4, 4, 7])"
proof -
  note pairs = cigar_pairs_grammar [OF assms(1)]
  have len: "list_all (\<lambda>p. is_length (fst p)) gp"
    using assms unfolding cigar_grammar_def is_length_def list_all_iff by blast
  then have ok: "\<not> (\<exists>p \<in> set (cigar_pairs (cigar_string gp)). \<not> is_length (fst p))"
    unfolding pairs list_all_iff by auto
  define t where "t = 0 # running_sums 0 (map target_advance (cigar_pairs (cigar_string gp)))"
  define q where "q = 0 # running_sums 0 (map query_advance (cigar_pairs (cigar_string gp)))"
  have c: "cigar_coordinates (cigar_string gp) = Inr (t, q)"
    unfolding cigar_coordinates_eq if_not_P [OF ok] t_def q_def by simp
  have lt: "last t = sum_lengths ''MI'' gp"
    unfolding t_def last_running_sums pairs using grammar_advances(1) [OF len] by simp
  have lq: "last q = sum_lengths ''MD'' gp"
    unfolding q_def last_running_sums pairs using grammar_advances(2) [OF len] by simp
  have ne: "t \<noteq> []" "q \<noteq> []" by (simp_all add: t_def q_def)
  have p: "parse_cigar (cigar_string gp) = Inr (numpy_array (t, q))"
    by (simp add: parse_cigar_def c)
  have om: "origin_monotone (t, q)"
    using cigar_coordinates_origin_monotone [OF c] .
  have r: "(last (fst (rows (numpy_array (t, q)))), last (snd (rows (numpy_array (t, q))))) \<in>
        {(sum_lengths ''MI'' gp, sum_lengths ''MD'' gp),
         (round_double (sum_lengths ''MI'' gp), round_double (sum_lengths ''MD'' gp))}"
    using rows_numpy_array [of "(t, q)"] ne lt lq by (auto simp: last_map)
  have b: "numpy_array (t, q) = Int64 t q"
    if "sum_lengths ''MI'' gp < 2 ^ 63" "sum_lengths ''MD'' gp < 2 ^ 63"
    using numpy_array_below [OF om] that lt lq by simp
  have 1: "\<exists>a t q. parse_cigar (cigar_string gp) = Inr a \<and> rows a = (t, q) \<and>
            (last t, last q) \<in>
              {(sum_lengths ''MI'' gp, sum_lengths ''MD'' gp),
               (round_double (sum_lengths ''MI'' gp), round_double (sum_lengths ''MD'' gp))} \<and>
            (sum_lengths ''MI'' gp < 2 ^ 63 \<and> sum_lengths ''MD'' gp < 2 ^ 63 \<longrightarrow>
               a = Int64 t q \<and>
               (last t, last q) = (sum_lengths ''MI'' gp, sum_lengths ''MD'' gp))"
  proof (intro exI conjI impI)
    show "parse_cigar (cigar_string gp) = Inr (numpy_array (t, q))" by (rule p)
    show "rows (numpy_array (t, q)) =
      (fst (rows (numpy_array (t, q))), snd (rows (numpy_array (t, q))))" by simp
    show "(last (fst (rows (numpy_array (t, q)))), last (snd (rows (numpy_array (t, q))))) \<in>
        {(sum_lengths ''MI'' gp, sum_lengths ''MD'' gp),
         (round_double (sum_lengths ''MI'' gp), round_double (sum_lengths ''MD'' gp))}"
      by (rule r)
  next
    assume "sum_lengths ''MI'' gp < 2 ^ 63 \<and> sum_lengths ''MD'' gp < 2 ^ 63"
    then have e: "numpy_array (t, q) = Int64 t q" using b by blast
    show "numpy_array (t, q) =
      Int64 (fst (rows (numpy_array (t, q)))) (snd (rows (numpy_array (t, q))))"
      by (simp add: e)
    show "(last (fst (rows (numpy_array (t, q)))), last (snd (rows (numpy_array (t, q))))) =
      (sum_lengths ''MI'' gp, sum_lengths ''MD'' gp)"
      by (simp add: e lt lq)
  qed
  have 2: "parse_cigar ''4M2I3M'' = Inr (Int64 [0, 4, 6, 9] [0, 4, 4, 7])" by code_simp
  from 1 2 show ?thesis by blast
qed

text \<open>
  C5 at the grammar string \<open>4M2I3M\<close>.
\<close>

theorem parse_cigar_final_column_witness:
  "cigar_grammar [(''4'', CHR ''M''), (''2'', CHR ''I''), (''3'', CHR ''M'')] \<and>
   cigar_string [(''4'', CHR ''M''), (''2'', CHR ''I''), (''3'', CHR ''M'')] = ''4M2I3M'' \<and>
   sum_lengths ''MI'' [(''4'', CHR ''M''), (''2'', CHR ''I''), (''3'', CHR ''M'')] = 9 \<and>
   sum_lengths ''MD'' [(''4'', CHR ''M''), (''2'', CHR ''I''), (''3'', CHR ''M'')] = 7 \<and>
   (\<exists>t q. parse_cigar ''4M2I3M'' = Inr (Int64 t q) \<and> (last t, last q) = (9, 7))"
proof -
  let ?gp = "[(''4'', CHR ''M''), (''2'', CHR ''I''), (''3'', CHR ''M'')]"
  have g: "cigar_grammar ?gp"
    by (simp add: cigar_grammar_def all_digits_def is_digit_def cigar_letter_def)
  have l: "list_all (\<lambda>p. length (fst p) \<le> int_max_str_digits) ?gp"
    by (simp add: int_max_str_digits_def)
  have s: "cigar_string ?gp = ''4M2I3M''" by (simp add: cigar_string_def)
  have a: "sum_lengths ''MI'' ?gp = 9" "sum_lengths ''MD'' ?gp = 7"
    by (simp_all add: sum_lengths_def dec_value_def digit_val_def)
  from parse_cigar_final_column [OF g l, THEN conjunct1, unfolded s a]
  obtain b t q where "parse_cigar ''4M2I3M'' = Inr b" "rows b = (t, q)"
    "(9 :: int) < 2 ^ 63 \<and> (7 :: int) < 2 ^ 63 \<longrightarrow> b = Int64 t q \<and> (last t, last q) = (9, 7)"
    by blast
  then have "\<exists>t q. parse_cigar ''4M2I3M'' = Inr (Int64 t q) \<and> (last t, last q) = (9, 7)"
    by auto
  with g s a show ?thesis by blast
qed

text \<open>
  C5 as stated, for every string of the grammar, fails: the length of
  \<open>9223372036854775809M\<close> is \<open>2 ^ 63 + 1\<close>, the array holds doubles, and its final column
  is \<open>2 ^ 63\<close>.
\<close>

theorem parse_cigar_beyond_int64:
  "cigar_grammar [(''9223372036854775809'', CHR ''M'')] \<and>
   cigar_string [(''9223372036854775809'', CHR ''M'')] = ''9223372036854775809M'' \<and>
   sum_lengths ''MI'' [(''9223372036854775809'', CHR ''M'')] = 9223372036854775809 \<and>
   parse_cigar ''9223372036854775809M'' =
     Inr (Float64 [0, 9223372036854775808] [0, 9223372036854775808])"
  by code_simp

text \<open>
  C4 (as the code has it). The operation of a pair is the second of two consecutive
  tokens, and a token is a decimal run or one of the letters \<open>M\<close>, \<open>D\<close>, \<open>I\<close>; any
  other character is dropped before the pairs are formed. So an operation outside
  \<open>M\<close>, \<open>I\<close>, \<open>D\<close> is a decimal run. Whenever \<^verbatim>\<open>parse_cigar\<close> returns, its matrix has
  the origin column and one column for each pair of tokens, and the column of a pair
  whose operation is outside \<open>M\<close>, \<open>I\<close>, \<open>D\<close> equals the column before it.
\<close>

theorem cigar_unknown_operation:
  assumes "parse_cigar s = Inr a" "rows a = (t, q)"
  shows "length t = Suc (length (cigar_pairs s)) \<and> length q = Suc (length (cigar_pairs s)) \<and>
     (\<forall>i < length (cigar_pairs s).
        snd (cigar_pairs s ! i) \<notin> {''M'', ''I'', ''D''} \<longrightarrow>
          all_digits (snd (cigar_pairs s ! i)) \<and> t ! Suc i = t ! i \<and> q ! Suc i = q ! i)"
proof -
  from assms(1) obtain c where c: "cigar_coordinates s = Inr c" "a = numpy_array c"
    by (auto simp: parse_cigar_def split: sum.splits)
  from c(1) have t: "fst c = 0 # running_sums 0 (map target_advance (cigar_pairs s))"
    and q: "snd c = 0 # running_sums 0 (map query_advance (cigar_pairs s))"
    unfolding cigar_coordinates_eq by (auto split: if_splits)
  have tq: "t = fst (rows (numpy_array c))" "q = snd (rows (numpy_array c))"
    using assms(2) c(2) by simp_all
  have len: "length t = Suc (length (cigar_pairs s))" "length q = Suc (length (cigar_pairs s))"
    unfolding tq length_rows_numpy_array by (simp_all add: t q length_running_sums)
  have "all_digits (snd (cigar_pairs s ! i)) \<and> t ! Suc i = t ! i \<and> q ! Suc i = q ! i"
    if i: "i < length (cigar_pairs s)" and op: "snd (cigar_pairs s ! i) \<notin> {''M'', ''I'', ''D''}"
    for i
  proof -
    have "cigar_pairs s ! i \<in> set (cigar_pairs s)" using i by simp
    then have "cigar_token (snd (cigar_pairs s ! i))" by (simp add: cigar_pairs_tokens)
    with op have d: "all_digits (snd (cigar_pairs s ! i))" by (auto simp: cigar_token_def)
    have ta: "target_advance (cigar_pairs s ! i) = 0" "query_advance (cigar_pairs s ! i) = 0"
      using op by (simp_all add: target_advance_def query_advance_def)
    have "fst c ! Suc i = fst c ! i + map target_advance (cigar_pairs s) ! i"
      unfolding t using i by (intro nth_running_sums) simp
    then have 1: "fst c ! Suc i = fst c ! i" using ta i by simp
    have "snd c ! Suc i = snd c ! i + map query_advance (cigar_pairs s) ! i"
      unfolding q using i by (intro nth_running_sums) simp
    then have 2: "snd c ! Suc i = snd c ! i" using ta i by simp
    have 3: "Suc i < length (fst c)" "Suc i < length (snd c)"
      using i by (simp_all add: t q length_running_sums)
    from rows_numpy_array_nth [OF 1 2 3] d show ?thesis unfolding tq by simp
  qed
  with len show ?thesis by blast
qed

text \<open>
  C4 at \<open>4X3M\<close>: the only pair is \<open>(4, 3)\<close>, whose operation \<open>3\<close> is a decimal run.
\<close>

theorem cigar_unknown_operation_witness:
  "parse_cigar ''4X3M'' = Inr (Int64 [0, 0] [0, 0]) \<and>
   cigar_pairs ''4X3M'' = [(''4'', ''3'')] \<and>
   length [0, 0 :: int] = Suc (length (cigar_pairs ''4X3M'')) \<and>
   all_digits ''3'' \<and> [0, 0 :: int] ! Suc 0 = [0, 0] ! 0"
proof -
  have r: "parse_cigar ''4X3M'' = Inr (Int64 [0, 0] [0, 0])" by code_simp
  have p: "cigar_pairs ''4X3M'' = [(''4'', ''3'')]" by code_simp
  have rw: "rows (Int64 [0, 0] [0, 0]) = ([0, 0], [0, 0])" by simp
  note th = cigar_unknown_operation [OF r rw]
  have "all_digits (snd (cigar_pairs ''4X3M'' ! 0))"
    using th [THEN conjunct2, THEN conjunct2, rule_format, of 0] by (simp add: p)
  then have "all_digits ''3''" by (simp add: p)
  with th r p show ?thesis by simp
qed

text \<open>
  C4 as stated fails at its own example: in \<open>4X3M\<close> the \<open>X\<close> is no token, there is no
  pair with the operation \<open>X\<close>, and the pair \<open>3M\<close> of the string is never formed: the
  matrix has two columns, not three.
\<close>

theorem cigar_4X3M_drops_pair:
  "cigar_tokens ''4X3M'' = [''4'', ''3'', ''M''] \<and>
   parse_cigar ''4X3M'' = Inr (Int64 [0, 0] [0, 0]) \<and>
   map_sum id rows (parse_cigar ''4X3M'') \<noteq> Inr ([0, 0, 3], [0, 0, 3])"
  by code_simp

text \<open>
  C10 (as the code has it). \<^verbatim>\<open>parse_cigar\<close> raises nothing but ValueError, and raises
  it exactly when some token in a length position is not a run of at most 4300 digits,
  that is when it is one of the letters \<open>M\<close>, \<open>D\<close>, \<open>I\<close> or a run of more than 4300
  digits. A character that is neither a digit nor one of these letters is skipped by the
  tokenizer; a token left unpaired at the end is discarded; \<open>4M3\<close> and \<open>4M\<close> decode to
  the same matrix.
\<close>

theorem parse_cigar_lenient:
  "(\<forall>e. parse_cigar s = Inl e \<longrightarrow>
      e = ValueError \<and> (\<exists>p \<in> set (cigar_pairs s). \<not> is_length (fst p))) \<and>
   ((\<exists>p \<in> set (cigar_pairs s). \<not> is_length (fst p)) \<longrightarrow>
      parse_cigar s = Inl ValueError) \<and>
   (\<forall>p \<in> set (cigar_pairs s). \<not> is_length (fst p) \<longleftrightarrow>
      fst p \<in> {''M'', ''D'', ''I''} \<or>
      (all_digits (fst p) \<and> int_max_str_digits < length (fst p))) \<and>
   (\<not> is_digit c \<and> \<not> cigar_letter c \<longrightarrow>
      cigar_tokens (xs @ c # ys) = cigar_tokens xs @ cigar_tokens ys) \<and>
   (even (length ts) \<longrightarrow> token_pairs (ts @ [t]) = token_pairs (ts :: string list)) \<and>
   parse_cigar ''4M3'' = Inr (Int64 [0, 4] [0, 4]) \<and>
   parse_cigar ''4M'' = Inr (Int64 [0, 4] [0, 4])"
proof -
  have 1: "\<forall>e. parse_cigar s = Inl e \<longrightarrow>
      e = ValueError \<and> (\<exists>p \<in> set (cigar_pairs s). \<not> is_length (fst p))"
    unfolding parse_cigar_def cigar_coordinates_eq by (simp split: if_splits)
  have 2: "(\<exists>p \<in> set (cigar_pairs s). \<not> is_length (fst p)) \<longrightarrow>
      parse_cigar s = Inl ValueError"
    unfolding parse_cigar_def cigar_coordinates_eq by simp
  have 3: "parse_cigar ''4M3'' = Inr (Int64 [0, 4] [0, 4])" by code_simp
  have 4: "parse_cigar ''4M'' = Inr (Int64 [0, 4] [0, 4])" by code_simp
  have 5: "\<not> is_length (fst p) \<longleftrightarrow>
      fst p \<in> {''M'', ''D'', ''I''} \<or>
      (all_digits (fst p) \<and> int_max_str_digits < length (fst p))"
    if "p \<in> set (cigar_pairs s)" for p
    using cigar_pairs_tokens [OF that] digits_not_letter [of "fst p"]
    by (auto simp: cigar_token_def is_length_def)
  show ?thesis
    using 1 2 3 4 5 cigar_tokens_junk [of c xs ys] token_pairs_trailing [of ts t]
    by blast
qed

text \<open>
  C10 at \<open>1MDI\<close> (the letter \<open>D\<close> in a length position), at the skipped \<open>X\<close> of \<open>4X3M\<close>
  and at the trailing \<open>3\<close> of \<open>4M3\<close>.
\<close>

theorem parse_cigar_lenient_witness:
  "parse_cigar ''1MDI'' = Inl ValueError \<and>
   cigar_pairs ''1MDI'' = [(''1'', ''M''), (''D'', ''I'')] \<and>
   \<not> is_length ''D'' \<and>
   cigar_tokens ''4X3M'' = cigar_tokens ''4'' @ cigar_tokens ''3M'' \<and>
   cigar_tokens ''4X3M'' = [''4'', ''3'', ''M''] \<and>
   token_pairs [''4'', ''M'', ''3''] = token_pairs [''4'', ''M''] \<and>
   token_pairs [''4'', ''M''] = [(''4'', ''M'')]"
proof -
  have p: "cigar_pairs ''1MDI'' = [(''1'', ''M''), (''D'', ''I'')]" by code_simp
  have k: "cigar_tokens ''4X3M'' = [''4'', ''3'', ''M'']" by code_simp
  have j: "\<not> is_digit CHR ''X'' \<and> \<not> cigar_letter CHR ''X''"
    by (simp add: is_digit_def cigar_letter_def)
  have e: "even (length [''4'', ''M''])" by simp
  note th = parse_cigar_lenient [where s = "''1MDI''" and c = "CHR ''X''" and xs = "''4''"
      and ys = "''3M''" and ts = "[''4'', ''M'']" and t = "''3''"]
  have 0: "\<not> is_length ''D''"
    using th [THEN conjunct2, THEN conjunct2, THEN conjunct1, rule_format, of "(''D'', ''I'')"]
    by (simp add: p)
  have 1: "parse_cigar ''1MDI'' = Inl ValueError"
    using th [THEN conjunct2, THEN conjunct1] 0 by (simp add: p)
  have 2: "cigar_tokens (''4'' @ CHR ''X'' # ''3M'') = cigar_tokens ''4'' @ cigar_tokens ''3M''"
    using th [THEN conjunct2, THEN conjunct2, THEN conjunct2, THEN conjunct1] j by blast
  have 3: "token_pairs ([''4'', ''M''] @ [''3'']) = token_pairs [''4'', ''M'']"
    using th [THEN conjunct2, THEN conjunct2, THEN conjunct2, THEN conjunct2, THEN conjunct1] e
    by blast
  have 4: "token_pairs [''4'', ''M''] = [(''4'', ''M'')]" by (simp add: token_pairs_def)
  from 0 1 2 3 4 p k show ?thesis by (simp del: cigar_tokens.simps)
qed

text \<open>
  C10 as stated (never raises on malformed input) fails: on \<open>M4\<close> the letter \<open>M\<close> is
  in the length position, and \<^verbatim>\<open>int("M")\<close> raises ValueError.
\<close>

theorem parse_cigar_M4: "parse_cigar ''M4'' = Inl ValueError"
  by code_simp

section \<open>The assembler\<close>



text \<open>
  C8 (as the code has it). The length of the sequence without its dashes is compared
  with \<open>end - start\<close> in two places only: for the query when the program is TBLASTN, and
  for the target when the program is neither TBLASTN nor TBLASTX. There a mismatch fails
  the row (the arithmetic on the array staying within int64): for the query on the
  assertion itself; for the target on the assertion unless an earlier statement has
  raised already. In the other places there is no comparison: the query of TBLASTX, and
  the target of TBLASTN and of TBLASTX, go to \<^verbatim>\<open>Seq\<close> as they are, whatever the
  offsets, and the record is what the constructors make of them.
\<close>

theorem sequence_length_mismatch:
  assumes "dispatched pyfloat self line r"
  shows "(metadata_Program self = ''TBLASTN'' \<and> query_sequence r = Some s \<and>
          query_start r = Some qs \<and> query_end r = Some qe \<and>
          int (length (remove_dashes s)) \<noteq> qe - qs \<and> offsets_fit r \<longrightarrow>
            read_next_alignment pyfloat bio self line = Raises AssertionError) \<and>
         (metadata_Program self \<noteq> ''TBLASTN'' \<and> metadata_Program self \<noteq> ''TBLASTX'' \<and>
          target_sequence r = Some s \<and> target_start r = Some ts \<and> target_end r = Some te \<and>
          int (length (remove_dashes s)) \<noteq> te - ts \<and> offsets_fit r \<longrightarrow>
            (\<exists>e. read_next_alignment pyfloat bio self line = Raises e)) \<and>
         (metadata_Program self = ''TBLASTX'' \<and> query_sequence r = Some s \<longrightarrow>
            (\<forall>r1. resolve_coordinates r = Returns r1 \<longrightarrow>
               query_record bio self r1 =
                 build_record bio (Some (Seq_defined (remove_dashes s))) (query_id r)
                   (self_query_description self)
                   (AList.update ''end'' (opt_int (query_end r))
                     (AList.update ''start'' (opt_int (query_start r))
                       (query_annotations r1))))) \<and>
         ((metadata_Program self = ''TBLASTN'' \<or> metadata_Program self = ''TBLASTX'') \<and>
          target_sequence r = Some s \<longrightarrow>
            (\<forall>r1. resolve_coordinates r = Returns r1 \<longrightarrow>
               target_record bio self r1 =
                 (case build_record bio (Some (Seq_defined (remove_dashes s))) (target_id r)
                         None
                         (AList.update ''length'' (opt_int (target_length r))
                           (AList.update ''end'' (opt_int (target_end r))
                             (AList.update ''start'' (opt_int (target_start r))
                               (target_annotations r)))) of
                    Inl e \<Rightarrow> Raises e
                  | Inr target \<Rightarrow> Returns (target, coordinates r1))))"
proof -
  note rd = dispatched_read [OF assms, of bio]
  have a: "assemble bio self r = Raises AssertionError"
    if p: "metadata_Program self = ''TBLASTN''" "query_sequence r = Some s"
      "query_start r = Some qs" "query_end r = Some qe"
      "int (length (remove_dashes s)) \<noteq> qe - qs" "offsets_fit r"
  proof -
    from resolve_coordinates_fit [OF p(6,3,4)] obtain r1 where
      r1: "resolve_coordinates r = Returns r1" by blast
    note f = resolve_coordinates_fields [OF r1]
    have "query_record bio self r1 = Inl AssertionError"
      using p f by (intro query_record_mismatch) simp_all
    then show ?thesis by (simp add: assemble_def records_coordinates_def r1)
  qed
  have b: "\<exists>e. assemble bio self r = Raises e"
    if p: "metadata_Program self \<noteq> ''TBLASTN''" "metadata_Program self \<noteq> ''TBLASTX''"
      "target_sequence r = Some s" "target_start r = Some ts" "target_end r = Some te"
      "int (length (remove_dashes s)) \<noteq> te - ts" "offsets_fit r"
  proof (cases "resolve_coordinates r")
    case (Raises e)
    then show ?thesis by (simp add: assemble_def records_coordinates_def)
  next
    case Beyond_int64
    with resolve_coordinates_not_beyond [OF p(7)] show ?thesis by simp
  next
    case (Returns r1)
    note f = resolve_coordinates_fields [OF Returns]
    note w = resolve_coordinates_keeps_fit [OF p(7) Returns]
    have "target_record bio self r1 = Raises AssertionError"
      using p f w by (intro target_record_mismatch) simp_all
    then show ?thesis
      by (cases "query_record bio self r1")
        (simp_all add: assemble_def records_coordinates_def Returns)
  qed
  have c: "query_record bio self r1 =
                 build_record bio (Some (Seq_defined (remove_dashes s))) (query_id r)
                   (self_query_description self)
                   (AList.update ''end'' (opt_int (query_end r))
                     (AList.update ''start'' (opt_int (query_start r))
                       (query_annotations r1)))"
    if p: "metadata_Program self = ''TBLASTX''" "query_sequence r = Some s"
      and r1: "resolve_coordinates r = Returns r1" for r1
  proof -
    note f = resolve_coordinates_fields [OF r1]
    from f p(2) have "query_sequence r1 = Some s" by simp
    from query_record_TBLASTX [OF p(1) this, of bio] f show ?thesis by simp
  qed
  have d: "target_record bio self r1 =
                 (case build_record bio (Some (Seq_defined (remove_dashes s))) (target_id r)
                         None
                         (AList.update ''length'' (opt_int (target_length r))
                           (AList.update ''end'' (opt_int (target_end r))
                             (AList.update ''start'' (opt_int (target_start r))
                               (target_annotations r)))) of
                    Inl e \<Rightarrow> Raises e
                  | Inr target \<Rightarrow> Returns (target, coordinates r1))"
    if p: "metadata_Program self = ''TBLASTN'' \<or> metadata_Program self = ''TBLASTX''"
      "target_sequence r = Some s"
      and r1: "resolve_coordinates r = Returns r1" for r1
  proof -
    note f = resolve_coordinates_fields [OF r1]
    from f p(2) have "target_sequence r1 = Some s" by simp
    from target_record_TBLAST [OF p(1) this, of bio] f show ?thesis by simp
  qed
  from a b c d show ?thesis unfolding rd by blast
qed

text \<open>
  C8 at the query \<open>AC-G\<close> with start 10 and end 14 under TBLASTN, at the target
  \<open>AC-G\<close> with start 10 and end 14 under FASTA, and at the same query and the target
  \<open>AC\<close> under TBLASTX, where both records are built.
\<close>

theorem sequence_length_mismatch_witness:
  "dispatched no_float tblastn_iterator tblast_short_line
     ((initial_row tblastn_iterator :: unit row)
        \<lparr>query_id := Some ''q1'', target_id := Some ''t1'', query_start := Some 10,
         query_end := Some 14, query_sequence := Some ''AC-G'',
         target_sequence := Some ''AC'', coordinates := Some (Int64 [0, 3] [0, 3]),
         query_size := Some 50\<rparr>) \<and>
   int (length (remove_dashes ''AC-G'')) = 3 \<and>
   read_next_alignment no_float example_biopython tblastn_iterator tblast_short_line
     = Raises AssertionError \<and>
   dispatched no_float fasta_seq_iterator fasta_seq_line
     ((initial_row fasta_seq_iterator :: unit row)
        \<lparr>query_id := Some ''q1'', target_id := Some ''t1'', target_start := Some 10,
         target_end := Some 14, target_sequence := Some ''AC-G''\<rparr>) \<and>
   read_next_alignment no_float example_biopython fasta_seq_iterator fasta_seq_line
     = Raises AssertionError \<and>
   dispatched no_float tblastx_iterator tblast_short_line
     ((initial_row tblastx_iterator :: unit row)
        \<lparr>query_id := Some ''q1'', target_id := Some ''t1'', query_start := Some 10,
         query_end := Some 14, query_sequence := Some ''AC-G'',
         target_sequence := Some ''AC'', coordinates := Some (Int64 [0, 3] [0, 3]),
         query_size := Some 50\<rparr>) \<and>
   query_record example_biopython tblastx_iterator
     ((initial_row tblastx_iterator :: unit row)
        \<lparr>query_id := Some ''q1'', target_id := Some ''t1'', query_start := Some 10,
         query_end := Some 14, query_sequence := Some ''AC-G'',
         target_sequence := Some ''AC'', coordinates := Some (Int64 [0, 3] [10, 13]),
         query_size := Some 50\<rparr>)
     = Inr \<lparr>rec_object = (Some (Seq_defined ''ACG''), Some ''q1''), rec_description = None,
            rec_annotations = Some [(''start'', PyInt 10), (''end'', PyInt 14)]\<rparr> \<and>
   target_record example_biopython tblastx_iterator
     ((initial_row tblastx_iterator :: unit row)
        \<lparr>query_id := Some ''q1'', target_id := Some ''t1'', query_start := Some 10,
         query_end := Some 14, query_sequence := Some ''AC-G'',
         target_sequence := Some ''AC'', coordinates := Some (Int64 [0, 3] [10, 13]),
         query_size := Some 50\<rparr>)
     = Returns
         (\<lparr>rec_object = (Some (Seq_defined ''AC''), Some ''t1''), rec_description = None,
            rec_annotations =
              Some [(''start'', PyNone), (''end'', PyNone), (''length'', PyNone)]\<rparr>,
          Some (Int64 [0, 3] [10, 13]))"
proof -
  let ?r = "(initial_row tblastn_iterator :: unit row)
        \<lparr>query_id := Some ''q1'', target_id := Some ''t1'', query_start := Some 10,
         query_end := Some 14, query_sequence := Some ''AC-G'',
         target_sequence := Some ''AC'', coordinates := Some (Int64 [0, 3] [0, 3]),
         query_size := Some 50\<rparr>"
  let ?r' = "(initial_row fasta_seq_iterator :: unit row)
        \<lparr>query_id := Some ''q1'', target_id := Some ''t1'', target_start := Some 10,
         target_end := Some 14, target_sequence := Some ''AC-G''\<rparr>"
  let ?x = "(initial_row tblastx_iterator :: unit row)
        \<lparr>query_id := Some ''q1'', target_id := Some ''t1'', query_start := Some 10,
         query_end := Some 14, query_sequence := Some ''AC-G'',
         target_sequence := Some ''AC'', coordinates := Some (Int64 [0, 3] [0, 3]),
         query_size := Some 50\<rparr>"
  let ?x1 = "(initial_row tblastx_iterator :: unit row)
        \<lparr>query_id := Some ''q1'', target_id := Some ''t1'', query_start := Some 10,
         query_end := Some 14, query_sequence := Some ''AC-G'',
         target_sequence := Some ''AC'', coordinates := Some (Int64 [0, 3] [10, 13]),
         query_size := Some 50\<rparr>"
  have d: "dispatched no_float tblastn_iterator tblast_short_line ?r" by code_simp
  have d': "dispatched no_float fasta_seq_iterator fasta_seq_line ?r'" by code_simp
  have dx: "dispatched no_float tblastx_iterator tblast_short_line ?x" by code_simp
  have n: "int (length (remove_dashes ''AC-G'')) = 3" by (simp add: remove_dashes_def)
  have w: "offsets_fit ?r" by code_simp
  have w': "offsets_fit ?r'" by code_simp
  have rx: "resolve_coordinates ?x = Returns ?x1" by code_simp
  have 1: "read_next_alignment no_float example_biopython tblastn_iterator tblast_short_line
      = Raises AssertionError"
    using sequence_length_mismatch [OF d, THEN conjunct1, of "''AC-G''" 10 14] n w
    by (simp add: tblastn_iterator_def tblastx_iterator_def)
  have "\<exists>e. read_next_alignment no_float example_biopython fasta_seq_iterator fasta_seq_line
      = Raises e"
    using sequence_length_mismatch [OF d', THEN conjunct2, THEN conjunct1,
        of "''AC-G''" 10 14] n w'
    by (simp add: fasta_seq_iterator_def)
  moreover have "read_next_alignment no_float example_biopython fasta_seq_iterator
      fasta_seq_line = Raises AssertionError" by code_simp
  ultimately have 2: "read_next_alignment no_float example_biopython fasta_seq_iterator
      fasta_seq_line = Raises AssertionError" by simp
  have b1: "build_record example_biopython (Some (Seq_defined ''ACG'')) (Some ''q1'') None
      [(''start'', PyInt 10), (''end'', PyInt 14 :: unit pyval)]
    = Inr \<lparr>rec_object = (Some (Seq_defined ''ACG''), Some ''q1''), rec_description = None,
            rec_annotations = Some [(''start'', PyInt 10), (''end'', PyInt 14)]\<rparr>"
    by code_simp
  have b2: "build_record example_biopython (Some (Seq_defined ''AC'')) (Some ''t1'') None
      [(''start'', PyNone), (''end'', PyNone), (''length'', PyNone :: unit pyval)]
    = Inr \<lparr>rec_object = (Some (Seq_defined ''AC''), Some ''t1''), rec_description = None,
            rec_annotations =
              Some [(''start'', PyNone), (''end'', PyNone), (''length'', PyNone)]\<rparr>"
    by code_simp
  have 3: "query_record example_biopython tblastx_iterator ?x1
     = Inr \<lparr>rec_object = (Some (Seq_defined ''ACG''), Some ''q1''), rec_description = None,
            rec_annotations = Some [(''start'', PyInt 10), (''end'', PyInt 14)]\<rparr>"
    using sequence_length_mismatch [OF dx, THEN conjunct2, THEN conjunct2, THEN conjunct1,
        of "''AC-G''" example_biopython, rule_format, OF _ rx] b1
    by (simp add: tblastx_iterator_def initial_row_def remove_dashes_def opt_int_def)
  have 4: "target_record example_biopython tblastx_iterator ?x1
     = Returns
         (\<lparr>rec_object = (Some (Seq_defined ''AC''), Some ''t1''), rec_description = None,
            rec_annotations =
              Some [(''start'', PyNone), (''end'', PyNone), (''length'', PyNone)]\<rparr>,
          Some (Int64 [0, 3] [10, 13]))"
    using sequence_length_mismatch [OF dx, THEN conjunct2, THEN conjunct2, THEN conjunct2,
        of "''AC''" example_biopython, rule_format, OF _ rx] b2
    by (simp add: tblastx_iterator_def initial_row_def remove_dashes_def opt_int_def)
  from d d' dx n 1 2 3 4 show ?thesis by blast
qed

text \<open>
  C8 as stated, for every row, fails: under TBLASTX the query \<open>AC-G\<close> with start 10 and
  end 14 (three residues for a span of four) is taken as it is, and the alignment is
  returned.
\<close>

theorem tblastx_length_unchecked:
  "int (length (remove_dashes ''AC-G'')) \<noteq> 14 - 10 \<and>
   read_next_alignment no_float example_biopython tblastx_iterator tblast_short_line =
     Returns
       \<lparr>al_object =
          (\<lparr>rec_object = (Some (Seq_defined ''AC''), Some ''t1''), rec_description = None,
             rec_annotations =
               Some [(''start'', PyNone), (''end'', PyNone), (''length'', PyNone)]\<rparr>,
           \<lparr>rec_object = (Some (Seq_defined ''ACG''), Some ''q1''), rec_description = None,
             rec_annotations = Some [(''start'', PyInt 10), (''end'', PyInt 14)]\<rparr>,
           Some (Int64 [0, 3] [10, 13])),
        al_annotations = [], al_score = None\<rparr>"
  by code_simp

text \<open>
  C6 (as the code has it). When the row carries a trace-back field decoded to an int64
  array, and both query offsets, \<open>query_start\<close> fitting in 64 signed bits, the query row
  is rebased in int64 arithmetic, which wraps around: if \<open>query_start < query_end\<close>
  every value \<open>v\<close> becomes \<open>v + query_start\<close> wrapped, otherwise it becomes
  \<open>query_start - v\<close> wrapped, plus one, wrapped. These are \<open>v + query_start\<close> and
  \<open>query_start - v + 1\<close> whenever these stay within int64. The alignment that is
  returned is built on this query row; and with \<open>query_start = 100\<close>, \<open>query_end = 80\<close>
  the value 10 becomes 91. On a float64 array the same two formulas are computed in
  doubles, each operation rounding to the nearest double; on an array of Python objects
  they are computed exactly. (\<open>query_start\<close> is the local variable of the code: the
  field \<open>q. start\<close> minus one.)
\<close>

theorem query_rebasing:
  assumes "dispatched pyfloat self line r" "coordinates r = Some (Int64 t q)"
    "query_start r = Some qs" "query_end r = Some qe" "int64 qs"
  shows "resolve_coordinates r =
           Returns (r\<lparr>coordinates := Some (Int64 t (rebased_query qs qe q))\<rparr>) \<and>
         (\<forall>al. read_next_alignment pyfloat bio self line = Returns al \<longrightarrow>
            (\<exists>r1 target query t'.
               records_coordinates bio self r =
                 Returns (r1, target, query, Some (Int64 t' (rebased_query qs qe q))) \<and>
               Alignment bio target query (Some (Int64 t' (rebased_query qs qe q))) =
                 Inr (al_object al))) \<and>
         (qs < qe \<longrightarrow> rebased_query qs qe q = map (\<lambda>v. wrap64 (v + qs)) q) \<and>
         (\<not> qs < qe \<longrightarrow> rebased_query qs qe q = map (\<lambda>v. wrap64 (wrap64 (qs - v) + 1)) q) \<and>
         (qs < qe \<and> (\<forall>v \<in> set q. int64 (v + qs)) \<longrightarrow>
            rebased_query qs qe q = map (\<lambda>v. v + qs) q) \<and>
         (\<not> qs < qe \<and> (\<forall>v \<in> set q. int64 (qs - v) \<and> int64 (qs - v + 1)) \<longrightarrow>
            rebased_query qs qe q = map (\<lambda>v. qs - v + 1) q) \<and>
         rebase_query (Some 100) (Some 80) (Int64 t [10]) = Returns (Int64 t [91]) \<and>
         rebase_query (Some qs) (Some qe) (Float64 t q) =
           Returns (Float64 t
             (if qs < qe then map (\<lambda>v. round_double (v + round_double qs)) q
              else map (\<lambda>v. round_double (round_double (round_double qs - v) + 1)) q)) \<and>
         rebase_query (Some qs) (Some qe) (Object t q) =
           Returns (Object t (if qs < qe then map (\<lambda>v. v + qs) q
                              else map (\<lambda>v. qs - v + 1) q))"
proof -
  have 1: "rebase_query (Some 100) (Some 80) (Int64 t [10]) = Returns (Int64 t [91])"
    by (simp add: rebase_query_def int64_def wrap64_def)
  have 2: "\<exists>r1 target query t'.
               records_coordinates bio self r =
                 Returns (r1, target, query, Some (Int64 t' (rebased_query qs qe q))) \<and>
               Alignment bio target query (Some (Int64 t' (rebased_query qs qe q))) =
                 Inr (al_object al)"
    if "read_next_alignment pyfloat bio self line = Returns al" for al
  proof -
    from that have "assemble bio self r = Returns al"
      by (simp add: dispatched_read [OF assms(1)])
    then obtain r1 target query coords where
      a: "records_coordinates bio self r = Returns (r1, target, query, coords)"
        "Alignment bio target query coords = Inr (al_object al)"
      by (rule assemble_cases)
    from records_coordinates_rebased [OF a(1) assms(2)] assms(3,4)
    have "\<exists>t'. coords = Some (Int64 t' (rebased_query qs qe q))"
      by (auto split: if_splits)
    with a show ?thesis by blast
  qed
  have 3: "qs < qe \<longrightarrow> rebased_query qs qe q = map (\<lambda>v. wrap64 (v + qs)) q"
    "\<not> qs < qe \<longrightarrow> rebased_query qs qe q = map (\<lambda>v. wrap64 (wrap64 (qs - v) + 1)) q"
    by (simp_all add: rebased_query_def)
  have 4: "rebase_query (Some qs) (Some qe) (Float64 t q) =
           Returns (Float64 t
             (if qs < qe then map (\<lambda>v. round_double (v + round_double qs)) q
              else map (\<lambda>v. round_double (round_double (round_double qs - v) + 1)) q))"
    using assms(5) by (simp add: rebase_query_def)
  have 5: "rebase_query (Some qs) (Some qe) (Object t q) =
           Returns (Object t (if qs < qe then map (\<lambda>v. v + qs) q
                              else map (\<lambda>v. qs - v + 1) q))"
    by (simp add: rebase_query_def)
  from 1 2 3 4 5 resolve_coordinates_Int64 [OF assms(2-5)]
    rebased_query_forward [of qs qe q] rebased_query_reverse [of qs qe q]
  show ?thesis by blast
qed

text \<open>
  C6 at a FASTA row with the query offsets \<open>3..6\<close> (forward: the row \<open>[0,4]\<close> becomes
  \<open>[2,6]\<close>) and at one with \<open>6..3\<close> (reverse: it becomes \<open>[6,2]\<close>).
\<close>

theorem query_rebasing_witness:
  "dispatched no_float fasta_iterator fasta_line
     ((initial_row fasta_iterator :: unit row)
        \<lparr>query_id := Some ''q1'', target_id := Some ''t1'', query_start := Some 2,
         query_end := Some 6, target_start := Some 10, target_end := Some 14,
         coordinates := Some (Int64 [0, 4] [0, 4])\<rparr>) \<and>
   (\<exists>al target query t'.
      read_next_alignment no_float example_biopython fasta_iterator fasta_line = Returns al \<and>
      al_object al = (target, query, Some (Int64 t' [2, 6]))) \<and>
   dispatched no_float fasta_iterator fasta_reverse_line
     ((initial_row fasta_iterator :: unit row)
        \<lparr>query_id := Some ''q1'', target_id := Some ''t1'', query_start := Some 5,
         query_end := Some 3, target_start := Some 10, target_end := Some 14,
         coordinates := Some (Int64 [0, 4] [0, 4])\<rparr>) \<and>
   (\<exists>al target query t'.
      read_next_alignment no_float example_biopython fasta_iterator fasta_reverse_line
        = Returns al \<and>
      al_object al = (target, query, Some (Int64 t' [6, 2])))"
proof -
  let ?r = "(initial_row fasta_iterator :: unit row)
        \<lparr>query_id := Some ''q1'', target_id := Some ''t1'', query_start := Some 2,
         query_end := Some 6, target_start := Some 10, target_end := Some 14,
         coordinates := Some (Int64 [0, 4] [0, 4])\<rparr>"
  let ?r' = "(initial_row fasta_iterator :: unit row)
        \<lparr>query_id := Some ''q1'', target_id := Some ''t1'', query_start := Some 5,
         query_end := Some 3, target_start := Some 10, target_end := Some 14,
         coordinates := Some (Int64 [0, 4] [0, 4])\<rparr>"
  have d: "dispatched no_float fasta_iterator fasta_line ?r" by code_simp
  have d': "dispatched no_float fasta_iterator fasta_reverse_line ?r'" by code_simp
  have i: "int64 2" "int64 5" "int64 4" "int64 6" "int64 1" "int64 0"
    by (simp_all add: int64_def)
  have "(case read_next_alignment no_float example_biopython fasta_iterator fasta_line of
           Returns al \<Rightarrow> True | _ \<Rightarrow> False)" by code_simp
  then obtain al where
    al: "read_next_alignment no_float example_biopython fasta_iterator fasta_line = Returns al"
    by (cases "read_next_alignment no_float example_biopython fasta_iterator fasta_line")
      auto
  have "(case read_next_alignment no_float example_biopython fasta_iterator
           fasta_reverse_line of Returns al \<Rightarrow> True | _ \<Rightarrow> False)" by code_simp
  then obtain al' where
    al': "read_next_alignment no_float example_biopython fasta_iterator fasta_reverse_line
      = Returns al'"
    by (cases "read_next_alignment no_float example_biopython fasta_iterator
          fasta_reverse_line") auto
  note th = query_rebasing [OF d, of "[0, 4]" "[0, 4]" 2 6 example_biopython]
  have e: "rebased_query 2 6 [0, 4] = [2, 6]"
    using th [THEN conjunct2, THEN conjunct2, THEN conjunct2, THEN conjunct2, THEN conjunct1] i
    by simp
  from th [THEN conjunct2, THEN conjunct1, rule_format, OF _ _ _ _ al] i
  obtain r1 target query t' where
    "Alignment example_biopython target query (Some (Int64 t' (rebased_query 2 6 [0, 4])))
       = Inr (al_object al)"
    by auto
  then have 1: "\<exists>target query t'. al_object al = (target, query, Some (Int64 t' [2, 6]))"
    unfolding e by (blast dest: example_Alignment_Some)
  note th' = query_rebasing [OF d', of "[0, 4]" "[0, 4]" 5 3 example_biopython]
  have e': "rebased_query 5 3 [0, 4] = [6, 2]"
    using th' [THEN conjunct2, THEN conjunct2, THEN conjunct2, THEN conjunct2, THEN conjunct2,
        THEN conjunct1] i
    by simp
  from th' [THEN conjunct2, THEN conjunct1, rule_format, OF _ _ _ _ al'] i
  obtain r1' target' query' t'' where
    "Alignment example_biopython target' query' (Some (Int64 t'' (rebased_query 5 3 [0, 4])))
       = Inr (al_object al')"
    by auto
  then have 2: "\<exists>target query t'. al_object al' = (target, query, Some (Int64 t' [6, 2]))"
    unfolding e' by (blast dest: example_Alignment_Some)
  from d d' al al' 1 2 show ?thesis by blast
qed

text \<open>
  C6 as stated, for every value, fails: the CIGAR string \<open>9223372036854775807M\<close>
  decodes to an int64 array with the value \<open>2 ^ 63 - 1\<close>, and adding the query start 2
  wraps it around to \<open>- (2 ^ 63 - 1)\<close>.
\<close>

theorem query_rebasing_wraps:
  "parse_cigar ''9223372036854775807M'' =
     Inr (Int64 [0, 9223372036854775807] [0, 9223372036854775807]) \<and>
   rebase_query (Some 2) (Some 6) (Int64 [0, 9223372036854775807] [0, 9223372036854775807]) =
     Returns (Int64 [0, 9223372036854775807] [2, - 9223372036854775807]) \<and>
   9223372036854775807 + 2 \<noteq> (- 9223372036854775807 :: int) \<and>
   read_next_alignment no_float example_biopython fasta_iterator fasta_long_line =
     Returns
       \<lparr>al_object =
          (\<lparr>rec_object = (Some (Seq_undefined 14), Some ''t1''), rec_description = None,
             rec_annotations = None\<rparr>,
           \<lparr>rec_object = (Some (Seq_undefined 100), Some ''q1''), rec_description = None,
             rec_annotations = None\<rparr>,
           Some (Int64 [10, - 9223372036854775799] [2, - 9223372036854775807])),
        al_annotations = [], al_score = None\<rparr>"
  by code_simp




end
